theory Spec2Isabelle
  imports Complex_Main "HOL-Library.AList"
begin

section \<open>The Repl component of the playground (src/js/repl/Repl.js)\<close>

text \<open>
  The component owns one state object (\<open>this.state\<close>) and one instance field
  (\<open>_numLoadingPlugins\<close>). Its methods are modelled as functions on that pair which
  return the updated pair together with the calls they make to the imported modules
  (\<open>loadPlugin\<close>, \<open>compile\<close>, \<open>scopedEval\<close>, \<open>StorageService\<close>, \<open>UriUtils\<close>,
  the debounced \<open>_compileToState\<close>), in program order. What an imported function returns
  is a parameter of the model (the record \<open>Imports\<close>). A method name loses its leading
  underscore; the method \<open>_compile\<close> is \<open>Repl_compile\<close>, since \<open>compile\<close> is the import.

  \<open>setState\<close> is taken to merge its argument into the state at once and to run its
  callback after that. An exception is a value \<open>Inl e\<close> of the result. The constructor
  and \<open>_setupBabel\<close>, which build the state from what \<open>loadPersistedState\<close> and
  \<open>loadBabel\<close> deliver, are not modelled as methods.

  Most methods are modelled on a state of the type State. \<open>_onSettingChange\<close> and
  \<open>_onEnvPresetSettingChange\<close> store what they are given under a key they are given, so
  they are modelled on the state as a JavaScript object (\<open>StateObject\<close>): a State
  together with the own properties that are not of that type.
\<close>

subsection \<open>Data: the types of ./types and the State type of Repl.js\<close>

text \<open>
  The module ./types is not among the sources. The records below carry the fields that
  Repl.js reads or writes. A JavaScript number that is only passed through is a \<open>real\<close>;
  a value that Repl.js never inspects (a loaded module, an env preset build result) is an
  opaque token.
\<close>

datatype Error = TypeError string | ThrownError string

type_synonym Module = string
type_synonym BabelPresetEnvResult = string

record PluginConfig =
  label :: string

record LazyLoadedState =
  didError :: bool
  isLoaded :: bool
  isLoading :: bool

record PluginState = LazyLoadedState +
  config :: PluginConfig
  isEnabled :: bool
  plugin :: "Module option"

text \<open>
  A PluginStateMap is a JavaScript object used as a dictionary. It is an association list
  in the object's enumeration order (the order of \<open>for ... in\<close> and \<open>Object.keys\<close>);
  \<open>map_of\<close> is the property read and yields \<open>None\<close> for \<open>undefined\<close>.
\<close>

type_synonym PluginStateMap = "(string \<times> PluginState) list"

record BabelState = LazyLoadedState +
  build :: string
  circleciRepo :: string
  errorMessage :: "string option"
  version :: string

record EnvConfig =
  browsers :: string
  electron :: "real option"
  isEnvPresetEnabled :: bool
  isElectronEnabled :: bool
  isNodeEnabled :: bool
  node :: "real option"

record State =
  babel :: BabelState
  builtIns :: bool
  code :: string
  compiled :: "string option"
  compileError :: "Error option"
  debugEnvPreset :: bool
  envConfig :: EnvConfig
  envPresetDebugInfo :: "string option"
  envPresetState :: PluginState
  evalError :: "Error option"
  isSidebarExpanded :: bool
  lineWrap :: bool
  plugins :: PluginStateMap
  presets :: PluginStateMap
  runtimePolyfillState :: PluginState
  sourceMap :: "string option"

text \<open>The component instance: \<open>this.state\<close> and the field \<open>_numLoadingPlugins\<close>.\<close>

record Repl =
  state :: State
  numLoadingPlugins :: int

definition DEBOUNCE_DELAY :: nat where
  "DEBOUNCE_DELAY = 500"

subsection \<open>Values passed to and returned by the imported modules\<close>

text \<open>The \<open>targets\<close> object of the env preset options; an absent key is \<open>None\<close>.\<close>

record Targets =
  t_browsers :: "string list option"
  t_electron :: "real option option"
  t_node :: "real option option"

text \<open>
  \<open>onPresetBuild\<close> is either \<open>null\<close> or the closure of \<open>_compile\<close> that assigns
  \<open>envPresetDebugInfo\<close>.
\<close>

datatype OnPresetBuild = AssignEnvPresetDebugInfo

record EnvOptions =
  onPresetBuild :: "OnPresetBuild option"
  targets :: Targets
  useBuiltIns :: bool

datatype BabelPreset = PresetName string | PresetWithOptions string EnvOptions

record CompileConfig =
  cfg_evaluate :: bool
  cfg_presets :: "BabelPreset list"
  cfg_prettify :: bool
  cfg_sourceMap :: bool

text \<open>
  The object returned by \<open>compile\<close> is spread into the state; it carries the State fields
  that the constructor leaves \<open>null\<close> for the compile helper to populate.
\<close>

record CompileReturn =
  r_compiled :: "string option"
  r_compileError :: "Error option"
  r_evalError :: "Error option"
  r_sourceMap :: "string option"

text \<open>The object literal that \<open>_persistState\<close> builds.\<close>

record PersistedState =
  p_babili :: bool
  p_browsers :: string
  p_build :: string
  p_builtIns :: bool
  p_circleciRepo :: string
  p_code :: string
  p_debug :: bool
  p_evaluate :: bool
  p_lineWrap :: bool
  p_presets :: string
  p_prettier :: bool
  p_showSidebar :: bool
  p_targets :: string
  p_version :: string

text \<open>
  The imported functions whose results Repl.js uses. \<open>compile\<close> returns its result
  object and, beside it, the build results with which it invoked the \<open>onPresetBuild\<close>
  option of the env preset during this compilation, in order (none when the option is
  \<open>null\<close>). \<open>scopedEval\<close> yields \<open>Inl e\<close> when it throws \<open>e\<close>.
\<close>

record Imports =
  compile :: "string \<Rightarrow> CompileConfig \<Rightarrow> CompileReturn \<times> BabelPresetEnvResult list"
  scopedEval :: "string \<Rightarrow> string option \<Rightarrow> Error + unit"
  getDebugInfoFromEnvResult :: "BabelPresetEnvResult \<Rightarrow> string option"
  envConfigToTargetsString :: "EnvConfig \<Rightarrow> string"

text \<open>
  The three closures that \<open>_checkForUnloadedPlugins\<close> hands to \<open>loadPlugin\<close>.
  \<open>loadPlugin\<close> (./loadPlugin, not among the sources) is taken to change only the
  plugin state object it is given and to invoke the callback once, after the method that
  called it has returned.
\<close>

datatype Callback =
    PluginLoadCallback
  | RuntimePolyfillLoadCallback
  | EnvPresetLoadCallback

datatype Call =
    LoadPlugin PluginState Callback
  | Compile string CompileConfig
  | ScopedEval string "string option"
  | RegisterPreset string Module
  | CompileToState string
  | StorageSet string PersistedState
  | UpdateQuery PersistedState

subsection \<open>JavaScript primitives used by Repl.js\<close>

text \<open>\<open>Array.prototype.join(",")\<close> on an array of strings.\<close>

fun join_comma :: "string list \<Rightarrow> string" where
  "join_comma [] = []"
| "join_comma [x] = x"
| "join_comma (x # y # ys) = x @ '','' @ join_comma (y # ys)"

text \<open>\<open>String.prototype.split(",")\<close>: the pieces between commas; never empty.\<close>

fun split_comma :: "string \<Rightarrow> string list" where
  "split_comma [] = [[]]"
| "split_comma (c # cs) =
     (if c = CHR '','' then [] # split_comma cs
      else (case split_comma cs of [] \<Rightarrow> [[c]] | p # ps \<Rightarrow> (c # p) # ps))"

text \<open>
  A string of the model is the UTF-8 encoding of the JavaScript string.
  \<open>String.prototype.trim\<close> removes white space and line terminators from both ends:
  U+0009 to U+000D, U+0020, U+00A0, U+1680, U+2000 to U+200A, U+2028, U+2029, U+202F,
  U+205F, U+3000 and U+FEFF, here as their encodings.
\<close>

definition whiteSpace :: "string list" where
  "whiteSpace =
     [[CHR 0x09], [CHR 0x0A], [CHR 0x0B], [CHR 0x0C], [CHR 0x0D], [CHR 0x20],
      [CHR 0xC2, CHR 0xA0],
      [CHR 0xE1, CHR 0x9A, CHR 0x80],
      [CHR 0xE2, CHR 0x80, CHR 0x80], [CHR 0xE2, CHR 0x80, CHR 0x81],
      [CHR 0xE2, CHR 0x80, CHR 0x82], [CHR 0xE2, CHR 0x80, CHR 0x83],
      [CHR 0xE2, CHR 0x80, CHR 0x84], [CHR 0xE2, CHR 0x80, CHR 0x85],
      [CHR 0xE2, CHR 0x80, CHR 0x86], [CHR 0xE2, CHR 0x80, CHR 0x87],
      [CHR 0xE2, CHR 0x80, CHR 0x88], [CHR 0xE2, CHR 0x80, CHR 0x89],
      [CHR 0xE2, CHR 0x80, CHR 0x8A],
      [CHR 0xE2, CHR 0x80, CHR 0xA8], [CHR 0xE2, CHR 0x80, CHR 0xA9],
      [CHR 0xE2, CHR 0x80, CHR 0xAF],
      [CHR 0xE2, CHR 0x81, CHR 0x9F],
      [CHR 0xE3, CHR 0x80, CHR 0x80],
      [CHR 0xEF, CHR 0xBB, CHR 0xBF]]"

text \<open>
  Removing the white space at the front, given the encodings to look for. Each removal
  takes at least one character away, so \<open>length s\<close> rounds are enough for \<open>s\<close>.
\<close>

fun trimStart :: "nat \<Rightarrow> string list \<Rightarrow> string \<Rightarrow> string" where
  "trimStart 0 ws s = s"
| "trimStart (Suc n) ws s =
     (case List.find (\<lambda>w. take (length w) s = w) ws of
        None \<Rightarrow> s
      | Some w \<Rightarrow> trimStart n ws (drop (length w) s))"

definition trim :: "string \<Rightarrow> string" where
  "trim s =
     (let s1 = trimStart (length s) whiteSpace s
      in rev (trimStart (length s1) (map rev whiteSpace) (rev s1)))"

text \<open>Truthiness of a string.\<close>

definition truthy_string :: "string \<Rightarrow> bool" where
  "truthy_string s = (s \<noteq> [])"

text \<open>
  Reading a property of a state of the type State by name; a name that is no key of the
  type reads as \<open>undefined\<close>. Values of which only the truthiness or the presence
  matters are \<open>JsObject\<close>.
\<close>

datatype JsValue =
  JsUndefined | JsNull | JsBoolean bool | JsNumber real | JsString string | JsObject

fun truthy :: "JsValue \<Rightarrow> bool" where
  "truthy JsUndefined = False"
| "truthy JsNull = False"
| "truthy (JsBoolean b) = b"
| "truthy (JsNumber r) = (r \<noteq> 0)"
| "truthy (JsString s) = truthy_string s"
| "truthy JsObject = True"

definition nullable_string :: "string option \<Rightarrow> JsValue" where
  "nullable_string v = (case v of None \<Rightarrow> JsNull | Some s \<Rightarrow> JsString s)"

definition nullable_object :: "'a option \<Rightarrow> JsValue" where
  "nullable_object v = (case v of None \<Rightarrow> JsNull | Some x \<Rightarrow> JsObject)"

definition State_keys :: "string list" where
  "State_keys =
     [''babel'', ''builtIns'', ''code'', ''compiled'', ''compileError'', ''debugEnvPreset'',
      ''envConfig'', ''envPresetDebugInfo'', ''envPresetState'', ''evalError'',
      ''isSidebarExpanded'', ''lineWrap'', ''plugins'', ''presets'', ''runtimePolyfillState'',
      ''sourceMap'']"

definition getProperty :: "State \<Rightarrow> string \<Rightarrow> JsValue" where
  "getProperty st name =
     (if name = ''babel'' then JsObject
      else if name = ''builtIns'' then JsBoolean (builtIns st)
      else if name = ''code'' then JsString (code st)
      else if name = ''compiled'' then nullable_string (compiled st)
      else if name = ''compileError'' then nullable_object (compileError st)
      else if name = ''debugEnvPreset'' then JsBoolean (debugEnvPreset st)
      else if name = ''envConfig'' then JsObject
      else if name = ''envPresetDebugInfo'' then nullable_string (envPresetDebugInfo st)
      else if name = ''envPresetState'' then JsObject
      else if name = ''evalError'' then nullable_object (evalError st)
      else if name = ''isSidebarExpanded'' then JsBoolean (isSidebarExpanded st)
      else if name = ''lineWrap'' then JsBoolean (lineWrap st)
      else if name = ''plugins'' then JsObject
      else if name = ''presets'' then JsObject
      else if name = ''runtimePolyfillState'' then JsObject
      else if name = ''sourceMap'' then nullable_string (sourceMap st)
      else JsUndefined)"

subsection \<open>_presetsToArray and _persistState\<close>

definition presetsToArray :: "State \<Rightarrow> string list" where
  "presetsToArray st =
     map (\<lambda>key_value. label (config (snd key_value)))
       (filter (\<lambda>key_value. isEnabled (snd key_value) \<and> isLoaded (snd key_value)) (presets st))"

text \<open>
  \<open>_persistState\<close> reads \<open>plugins["babili-standalone"].isEnabled\<close> and
  \<open>plugins.prettier.isEnabled\<close>; a missing entry makes the property read throw a TypeError.
\<close>

definition persistState :: "Imports \<Rightarrow> Repl \<Rightarrow> Error + Call list" where
  "persistState X this =
     (let envConfig = envConfig (state this);
          plugins = plugins (state this);
          presetsArray = presetsToArray (state this)
      in case map_of plugins ''babili-standalone'' of
           None \<Rightarrow> Inl (TypeError ''babili-standalone'')
         | Some babili \<Rightarrow>
             (let presetsArray =
                    (if isEnabled babili then presetsArray @ [''babili''] else presetsArray);
                  presetsArray =
                    (if isEnvPresetEnabled envConfig then presetsArray @ [''env'']
                     else presetsArray)
              in case map_of plugins ''prettier'' of
                   None \<Rightarrow> Inl (TypeError ''prettier'')
                 | Some prettier \<Rightarrow>
                     (let st = \<lparr> p_babili = isEnabled babili,
                                 p_browsers = browsers envConfig,
                                 p_build = build (babel (state this)),
                                 p_builtIns = builtIns (state this),
                                 p_circleciRepo = circleciRepo (babel (state this)),
                                 p_code = code (state this),
                                 p_debug = debugEnvPreset (state this),
                                 p_evaluate = isEnabled (runtimePolyfillState (state this)),
                                 p_lineWrap = lineWrap (state this),
                                 p_presets = join_comma presetsArray,
                                 p_prettier = isEnabled prettier,
                                 p_showSidebar = isSidebarExpanded (state this),
                                 p_targets = envConfigToTargetsString X envConfig,
                                 p_version = version (babel (state this)) \<rparr>
                      in Inr [StorageSet ''replState'' st, UpdateQuery st])))"

subsection \<open>_compile\<close>

text \<open>
  The object \<open>_compile\<close> returns: the result of \<open>compile\<close>, spread, and
  \<open>envPresetDebugInfo\<close>.
\<close>

record CompileState = CompileReturn +
  r_envPresetDebugInfo :: "string option"

definition Repl_compile ::
  "Imports \<Rightarrow> string \<Rightarrow> State \<Rightarrow> Error + (CompileState \<times> Call list)" where
  "Repl_compile X code' st =
     (let envConfig = envConfig st;
          runtimePolyfillState = runtimePolyfillState st;
          presetsArray = map PresetName (presetsToArray st)
      in case map_of (plugins st) ''babili-standalone'' of
           None \<Rightarrow> Inl (TypeError ''babili-standalone'')
         | Some babili \<Rightarrow>
             (let presetsArray =
                    (if isEnabled babili \<and> isLoaded babili
                     then presetsArray @ [PresetName ''babili''] else presetsArray);
                  envPreset = (isEnvPresetEnabled envConfig \<and> isLoaded (envPresetState st));
                  onPresetBuild =
                    (if envPreset \<and> debugEnvPreset st then Some AssignEnvPresetDebugInfo
                     else None);
                  targets =
                    \<lparr> t_browsers =
                        (if truthy_string (browsers envConfig)
                         then Some (filter truthy_string
                                      (map trim (split_comma (browsers envConfig))))
                         else None),
                      t_electron =
                        (if isElectronEnabled envConfig then Some (electron envConfig) else None),
                      t_node = (if isNodeEnabled envConfig then Some (node envConfig) else None) \<rparr>;
                  options =
                    \<lparr> onPresetBuild = onPresetBuild,
                      targets = targets,
                      useBuiltIns = (\<not> truthy (getProperty st ''evaluate'') \<and> builtIns st) \<rparr>;
                  presetsArray =
                    (if envPreset then presetsArray @ [PresetWithOptions ''env'' options]
                     else presetsArray)
              in case map_of (plugins st) ''prettier'' of
                   None \<Rightarrow> Inl (TypeError ''prettier'')
                 | Some prettier \<Rightarrow>
                     (let cfg = \<lparr> cfg_evaluate =
                                    (isEnabled runtimePolyfillState
                                     \<and> isLoaded runtimePolyfillState),
                                  cfg_presets = presetsArray,
                                  cfg_prettify = isEnabled prettier,
                                  cfg_sourceMap = isEnabled runtimePolyfillState \<rparr>;
                          result = compile X code' cfg;
                          envPresetDebugInfo =
                            (case onPresetBuild of
                               None \<Rightarrow> None
                             | Some AssignEnvPresetDebugInfo \<Rightarrow>
                                 foldl (\<lambda>info r. getDebugInfoFromEnvResult X r) None (snd result))
                      in Inr (CompileReturn.extend (fst result)
                                (CompileState.fields envPresetDebugInfo),
                              [Compile code' cfg]))))"

subsection \<open>_updateCode, the debounced _compileToState, _onIsSidebarExpandedChange\<close>

text \<open>
  \<open>_updateCode\<close> sets \<open>code\<close> and calls the debounced function, which is recorded as
  the call \<open>CompileToState code\<close>.
\<close>

definition updateCode :: "string \<Rightarrow> Repl \<Rightarrow> Repl \<times> Call list" where
  "updateCode code' this = (this\<lparr>state := (state this)\<lparr>code := code'\<rparr>\<rparr>, [CompileToState code'])"

definition setState_CompileState :: "State \<Rightarrow> CompileState \<Rightarrow> State" where
  "setState_CompileState st r =
     st\<lparr> compiled := r_compiled r,
         compileError := r_compileError r,
         evalError := r_evalError r,
         sourceMap := r_sourceMap r,
         envPresetDebugInfo := r_envPresetDebugInfo r \<rparr>"

text \<open>
  The function that \<open>debounce\<close> wraps: it runs with the arguments of the last call, once
  the delay has passed.
\<close>

definition compileToState :: "Imports \<Rightarrow> string \<Rightarrow> Repl \<Rightarrow> Error + (Repl \<times> Call list)" where
  "compileToState X code' this =
     (case Repl_compile X code' (state this) of
        Inl e \<Rightarrow> Inl e
      | Inr (r, calls) \<Rightarrow>
          (let this' = this\<lparr>state := setState_CompileState (state this) r\<rparr>
           in case persistState X this' of
                Inl e \<Rightarrow> Inl e
              | Inr calls' \<Rightarrow> Inr (this', calls @ calls')))"

definition onIsSidebarExpandedChange ::
  "Imports \<Rightarrow> bool \<Rightarrow> Repl \<Rightarrow> Error + (Repl \<times> Call list)" where
  "onIsSidebarExpandedChange X isExpanded this =
     (let this' = this\<lparr>state := (state this)\<lparr>isSidebarExpanded := isExpanded\<rparr>\<rparr>
      in case persistState X this' of
           Inl e \<Rightarrow> Inl e
         | Inr calls \<Rightarrow> Inr (this', calls))"

subsection \<open>_checkForUnloadedPlugins and the callbacks of its loads\<close>

text \<open>
  The \<open>for ... in\<close> loop over the entries of \<open>plugins\<close>: the counter and the calls
  made for the entries still to visit.
\<close>

fun forIn_plugins :: "PluginStateMap \<Rightarrow> int \<Rightarrow> int \<times> Call list" where
  "forIn_plugins [] n = (n, [])"
| "forIn_plugins ((key, plugin') # rest) n =
     (if isEnabled plugin' \<and> \<not> isLoaded plugin' \<and> \<not> isLoading plugin'
      then (let (n', calls) = forIn_plugins rest (n + 1)
            in (n', LoadPlugin plugin' PluginLoadCallback # calls))
      else forIn_plugins rest n)"

definition checkForUnloadedPlugins :: "Repl \<Rightarrow> Repl \<times> Call list" where
  "checkForUnloadedPlugins this =
     (let envConfig = envConfig (state this);
          envPresetState = envPresetState (state this);
          plugins = plugins (state this);
          runtimePolyfillState = runtimePolyfillState (state this);
          (n, loads) = forIn_plugins plugins (numLoadingPlugins this);
          polyfill =
            (if isEnabled runtimePolyfillState \<and> \<not> isLoaded runtimePolyfillState
             then [LoadPlugin runtimePolyfillState RuntimePolyfillLoadCallback] else []);
          env =
            (if isEnvPresetEnabled envConfig \<and> \<not> isLoaded envPresetState
             then [LoadPlugin envPresetState EnvPresetLoadCallback] else [])
      in (this\<lparr>numLoadingPlugins := n\<rparr>, loads @ polyfill @ env))"

text \<open>
  The callback of a plugin load. Its closure holds the \<open>plugins\<close> object that
  \<open>_checkForUnloadedPlugins\<close> read from the state; the argument \<open>plugins'\<close> is that
  object as it is when the callback runs.
\<close>

definition pluginLoadCallback :: "PluginStateMap \<Rightarrow> bool \<Rightarrow> Repl \<Rightarrow> Repl \<times> Call list" where
  "pluginLoadCallback plugins' success this =
     (let this = this\<lparr>numLoadingPlugins := numLoadingPlugins this - 1\<rparr>;
          this = (if \<not> success then this\<lparr>state := (state this)\<lparr>plugins := plugins'\<rparr>\<rparr> else this)
      in if numLoadingPlugins this = 0 then updateCode (code (state this)) this
         else (this, []))"

text \<open>
  The callback of the runtime polyfill load. \<open>scopedEval\<close> runs inside \<open>try\<close>; what it
  throws is caught and becomes \<open>evalError\<close>.
\<close>

definition runtimePolyfillLoadCallback :: "Imports \<Rightarrow> Repl \<Rightarrow> Error + (Repl \<times> Call list)" where
  "runtimePolyfillLoadCallback X this =
     (if \<not> truthy (nullable_string (compiled (state this))) then Inr (this, [])
      else (case compiled (state this) of
              None \<Rightarrow> Inr (this, [])
            | Some compiled' \<Rightarrow>
                (let evalError' =
                       (case scopedEval X compiled' (sourceMap (state this)) of
                          Inl error \<Rightarrow> Some error
                        | Inr u \<Rightarrow> None)
                 in Inr (this\<lparr>state := (state this)\<lparr>evalError := evalError'\<rparr>\<rparr>,
                         [ScopedEval compiled' (sourceMap (state this))]))))"

text \<open>
  The callback of the env preset load; \<open>envPresetState'\<close> is the captured object as it
  is when the callback runs. Reading \<open>.default\<close> of a missing module throws.
\<close>

definition envPresetLoadCallback :: "PluginState \<Rightarrow> Repl \<Rightarrow> Error + (Repl \<times> Call list)" where
  "envPresetLoadCallback envPresetState' this =
     (case plugin envPresetState' of
        None \<Rightarrow> Inl (TypeError ''default'')
      | Some m \<Rightarrow>
          (let (this', calls) = updateCode (code (state this)) this
           in Inr (this', RegisterPreset ''env'' m # calls)))"

subsection \<open>The state as a JavaScript object\<close>

text \<open>
  \<open>this.state\<close> as an object whose properties need not have the types of State.
  \<^item> \<open>declared\<close> holds, for each key of the type State, the value of that type that was
    last stored under it.
  \<^item> \<open>overwritten\<close> holds the booleans that \<open>_onSettingChange\<close> has stored under keys
    of State whose type is not boolean; such an entry is what the key holds now, and the
    field of \<open>declared\<close> is out of date.
  \<^item> \<open>spread\<close> holds the own properties under keys outside the type State. The updater
    in \<open>_setupBabel\<close> returns \<open>{...babelState, ...}\<close>, so from then on the state owns
    the properties of \<open>babelState\<close> (\<open>spread_of\<close>).
  \<^item> \<open>envConfig_stored\<close> holds the properties of the object \<open>state.envConfig\<close> that are
    no EnvConfig fields of their type: \<open>_onEnvPresetSettingChange\<close> stores any value
    under any name. An entry is what the property holds now.
\<close>

record StateObject =
  declared :: State
  overwritten :: "(string \<times> bool) list"
  spread :: "(string \<times> JsValue) list"
  envConfig_stored :: "(string \<times> JsValue) list"

text \<open>The component with the state as an object.\<close>

record ReplObject =
  stateObject :: StateObject
  o_numLoadingPlugins :: int

text \<open>
  What \<open>loadPlugin\<close> and the debounced \<open>_compileToState\<close> are called with when the
  state holds a boolean in place of the env preset state or of the code.
\<close>

datatype ObjectCall =
    OfType Call
  | LoadPlugin_Boolean bool Callback
  | CompileToState_Boolean bool

text \<open>
  The own properties that \<open>...babelState\<close> copies (Repl.js, line 194); an absent
  \<open>errorMessage\<close> is no property.
\<close>

definition spread_of :: "BabelState \<Rightarrow> (string \<times> JsValue) list" where
  "spread_of b =
     [(''didError'', JsBoolean (didError b)),
      (''isLoaded'', JsBoolean (isLoaded b)),
      (''isLoading'', JsBoolean (isLoading b)),
      (''build'', JsString (build b)),
      (''circleciRepo'', JsString (circleciRepo b))]
     @ (case errorMessage b of None \<Rightarrow> [] | Some m \<Rightarrow> [(''errorMessage'', JsString m)])
     @ [(''version'', JsString (version b))]"

definition object_of :: "State \<Rightarrow> StateObject" where
  "object_of st = \<lparr> declared = st, overwritten = [], spread = [], envConfig_stored = [] \<rparr>"

text \<open>The keys of State whose type is not boolean, and the boolean stored under one.\<close>

definition overwritable_keys :: "string list" where
  "overwritable_keys =
     [''babel'', ''code'', ''compiled'', ''compileError'', ''envConfig'',
      ''envPresetDebugInfo'', ''envPresetState'', ''evalError'', ''plugins'', ''presets'',
      ''runtimePolyfillState'', ''sourceMap'']"

definition stored_boolean :: "StateObject \<Rightarrow> string \<Rightarrow> bool option" where
  "stored_boolean obj key =
     (if key \<in> set overwritable_keys then map_of (overwritten obj) key else None)"

text \<open>\<open>state.hasOwnProperty(name)\<close>.\<close>

definition hasOwnProperty_state :: "StateObject \<Rightarrow> string \<Rightarrow> bool" where
  "hasOwnProperty_state obj name = (name \<in> set State_keys \<or> name \<in> fst ` set (spread obj))"

text \<open>
  \<open>plugins.hasOwnProperty(name)\<close> and \<open>presets.hasOwnProperty(name)\<close>; a boolean has
  no own property.
\<close>

definition hasOwnProperty_plugins :: "StateObject \<Rightarrow> string \<Rightarrow> bool" where
  "hasOwnProperty_plugins obj name =
     (case stored_boolean obj ''plugins'' of
        Some v \<Rightarrow> False
      | None \<Rightarrow> name \<in> fst ` set (plugins (declared obj)))"

definition hasOwnProperty_presets :: "StateObject \<Rightarrow> string \<Rightarrow> bool" where
  "hasOwnProperty_presets obj name =
     (case stored_boolean obj ''presets'' of
        Some v \<Rightarrow> False
      | None \<Rightarrow> name \<in> fst ` set (presets (declared obj)))"

text \<open>A property of \<open>state.envConfig\<close>; a property of a boolean reads as \<open>undefined\<close>.\<close>

definition EnvConfig_keys :: "string list" where
  "EnvConfig_keys =
     [''browsers'', ''electron'', ''isEnvPresetEnabled'', ''isElectronEnabled'',
      ''isNodeEnabled'', ''node'']"

definition nullable_number :: "real option \<Rightarrow> JsValue" where
  "nullable_number v = (case v of None \<Rightarrow> JsNull | Some r \<Rightarrow> JsNumber r)"

definition EnvConfig_property :: "EnvConfig \<Rightarrow> string \<Rightarrow> JsValue" where
  "EnvConfig_property ec name =
     (if name = ''browsers'' then JsString (browsers ec)
      else if name = ''electron'' then nullable_number (electron ec)
      else if name = ''isEnvPresetEnabled'' then JsBoolean (isEnvPresetEnabled ec)
      else if name = ''isElectronEnabled'' then JsBoolean (isElectronEnabled ec)
      else if name = ''isNodeEnabled'' then JsBoolean (isNodeEnabled ec)
      else if name = ''node'' then nullable_number (node ec)
      else JsUndefined)"

definition envConfig_property :: "StateObject \<Rightarrow> string \<Rightarrow> JsValue" where
  "envConfig_property obj name =
     (case stored_boolean obj ''envConfig'' of
        Some v \<Rightarrow> JsUndefined
      | None \<Rightarrow>
          (case map_of (envConfig_stored obj) name of
             Some v \<Rightarrow> v
           | None \<Rightarrow> EnvConfig_property (envConfig (declared obj)) name))"

text \<open>\<open>this.state.code\<close>: the boolean stored there, or the code.\<close>

definition code_value :: "StateObject \<Rightarrow> bool + string" where
  "code_value obj =
     (case stored_boolean obj ''code'' of Some v \<Rightarrow> Inl v | None \<Rightarrow> Inr (code (declared obj)))"

subsection \<open>_checkForUnloadedPlugins, _updateCode and _presetsUpdatedSetStateCallback on the object\<close>

text \<open>
  \<open>_checkForUnloadedPlugins\<close> reads four properties of the state. Over a boolean the
  \<open>for ... in\<close> loop has nothing to visit, and \<open>isEnabled\<close>, \<open>isLoaded\<close> and
  \<open>isEnvPresetEnabled\<close> of a boolean are \<open>undefined\<close>. When the env preset is enabled
  and \<open>envPresetState\<close> is a boolean, \<open>!envPresetState.isLoaded\<close> is true and
  \<open>loadPlugin\<close> is called with the boolean.
\<close>

definition checkForUnloadedPlugins_object :: "ReplObject \<Rightarrow> ReplObject \<times> ObjectCall list" where
  "checkForUnloadedPlugins_object this =
     (let obj = stateObject this;
          (n, loads) =
            (case stored_boolean obj ''plugins'' of
               Some v \<Rightarrow> (o_numLoadingPlugins this, [])
             | None \<Rightarrow> forIn_plugins (plugins (declared obj)) (o_numLoadingPlugins this));
          polyfill =
            (case stored_boolean obj ''runtimePolyfillState'' of
               Some v \<Rightarrow> []
             | None \<Rightarrow>
                 if isEnabled (runtimePolyfillState (declared obj))
                    \<and> \<not> isLoaded (runtimePolyfillState (declared obj))
                 then [LoadPlugin (runtimePolyfillState (declared obj))
                         RuntimePolyfillLoadCallback]
                 else []);
          env =
            (if truthy (envConfig_property obj ''isEnvPresetEnabled'')
             then (case stored_boolean obj ''envPresetState'' of
                     Some v \<Rightarrow> [LoadPlugin_Boolean v EnvPresetLoadCallback]
                   | None \<Rightarrow>
                       if \<not> isLoaded (envPresetState (declared obj))
                       then [OfType (LoadPlugin (envPresetState (declared obj))
                                       EnvPresetLoadCallback)]
                       else [])
             else [])
      in (this\<lparr>o_numLoadingPlugins := n\<rparr>, map OfType loads @ map OfType polyfill @ env))"

text \<open>
  \<open>_updateCode(code)\<close> with what \<open>this.state.code\<close> holds: \<open>setState({code})\<close>, then
  the call of the debounced function with it.
\<close>

definition updateCode_object ::
  "bool + string \<Rightarrow> ReplObject \<Rightarrow> ReplObject \<times> ObjectCall list" where
  "updateCode_object code' this =
     (let obj = stateObject this
      in case code' of
           Inr c \<Rightarrow>
             (this\<lparr>stateObject :=
                     obj\<lparr>declared := (declared obj)\<lparr>code := c\<rparr>,
                         overwritten := AList.delete ''code'' (overwritten obj)\<rparr>\<rparr>,
              [OfType (CompileToState c)])
         | Inl v \<Rightarrow>
             (this\<lparr>stateObject :=
                     obj\<lparr>overwritten := AList.update ''code'' v (overwritten obj)\<rparr>\<rparr>,
              [CompileToState_Boolean v]))"

definition presetsUpdatedSetStateCallback :: "ReplObject \<Rightarrow> ReplObject \<times> ObjectCall list" where
  "presetsUpdatedSetStateCallback this =
     (let (this1, calls1) = checkForUnloadedPlugins_object this;
          (this2, calls2) = updateCode_object (code_value (stateObject this1)) this1
      in (this2, calls1 @ calls2))"

subsection \<open>_onSettingChange\<close>

text \<open>
  The object the updater of \<open>_onSettingChange\<close> returns has one key: one of the three
  literal keys, or the computed key \<open>[name]\<close> with the boolean. The updater assigns
  \<open>isEnabled\<close> on the object it finds in the state and returns that object. Repl.js is
  a module, so its code is strict: assigning \<open>isEnabled\<close> on a boolean, which
  \<open>runtimePolyfillState\<close> is after \<open>_onSettingChange("runtimePolyfillState", ...)\<close>,
  throws a TypeError.
\<close>

datatype PartialState =
    Partial_runtimePolyfillState PluginState
  | Partial_computed string bool
  | Partial_plugins PluginStateMap
  | Partial_presets PluginStateMap

definition assign_isEnabled :: "PluginStateMap \<Rightarrow> string \<Rightarrow> bool \<Rightarrow> PluginStateMap" where
  "assign_isEnabled m name b =
     map (\<lambda>(key, p). if key = name then (key, p\<lparr>isEnabled := b\<rparr>) else (key, p)) m"

definition onSettingChange_updater ::
  "string \<Rightarrow> bool \<Rightarrow> StateObject \<Rightarrow> Error + PartialState option" where
  "onSettingChange_updater name isEnabled' obj =
     (if name = ''babel-polyfill''
      then (case stored_boolean obj ''runtimePolyfillState'' of
              Some v \<Rightarrow> Inl (TypeError ''isEnabled'')
            | None \<Rightarrow>
                Inr (Some (Partial_runtimePolyfillState
                             ((runtimePolyfillState (declared obj))\<lparr>isEnabled := isEnabled'\<rparr>))))
      else if hasOwnProperty_state obj name
      then Inr (Some (Partial_computed name isEnabled'))
      else if hasOwnProperty_plugins obj name
      then Inr (Some (Partial_plugins (assign_isEnabled (plugins (declared obj)) name isEnabled')))
      else if hasOwnProperty_presets obj name
      then Inr (Some (Partial_presets (assign_isEnabled (presets (declared obj)) name isEnabled')))
      else Inr None)"

text \<open>
  Merging a partial state into the state object. A value of the type of its key goes to
  \<open>declared\<close>; a boolean under a key of another type goes to \<open>overwritten\<close>; a boolean
  under a key outside the type State goes to \<open>spread\<close>.
\<close>

definition setState_PartialState :: "StateObject \<Rightarrow> PartialState \<Rightarrow> StateObject" where
  "setState_PartialState obj partial =
     (case partial of
        Partial_runtimePolyfillState r \<Rightarrow>
          obj\<lparr>declared := (declared obj)\<lparr>runtimePolyfillState := r\<rparr>,
              overwritten := AList.delete ''runtimePolyfillState'' (overwritten obj)\<rparr>
      | Partial_plugins m \<Rightarrow>
          obj\<lparr>declared := (declared obj)\<lparr>plugins := m\<rparr>,
              overwritten := AList.delete ''plugins'' (overwritten obj)\<rparr>
      | Partial_presets m \<Rightarrow>
          obj\<lparr>declared := (declared obj)\<lparr>presets := m\<rparr>,
              overwritten := AList.delete ''presets'' (overwritten obj)\<rparr>
      | Partial_computed name b \<Rightarrow>
          (if name = ''builtIns'' then obj\<lparr>declared := (declared obj)\<lparr>builtIns := b\<rparr>\<rparr>
           else if name = ''debugEnvPreset''
           then obj\<lparr>declared := (declared obj)\<lparr>debugEnvPreset := b\<rparr>\<rparr>
           else if name = ''isSidebarExpanded''
           then obj\<lparr>declared := (declared obj)\<lparr>isSidebarExpanded := b\<rparr>\<rparr>
           else if name = ''lineWrap'' then obj\<lparr>declared := (declared obj)\<lparr>lineWrap := b\<rparr>\<rparr>
           else if name \<in> set overwritable_keys
           then obj\<lparr>overwritten := AList.update name b (overwritten obj)\<rparr>
           else obj\<lparr>spread := AList.update name (JsBoolean b) (spread obj)\<rparr>))"

text \<open>
  \<open>setState(updater, callback)\<close>: an updater that returns \<open>undefined\<close> leaves the state
  as it is, and the callback runs; an updater that throws stores nothing, and the callback
  does not run.
\<close>

definition onSettingChange ::
  "string \<Rightarrow> bool \<Rightarrow> ReplObject \<Rightarrow> Error + (ReplObject \<times> ObjectCall list)" where
  "onSettingChange name isEnabled' this =
     (case onSettingChange_updater name isEnabled' (stateObject this) of
        Inl e \<Rightarrow> Inl e
      | Inr None \<Rightarrow> Inr (presetsUpdatedSetStateCallback this)
      | Inr (Some partial) \<Rightarrow>
          Inr (presetsUpdatedSetStateCallback
                 (this\<lparr>stateObject := setState_PartialState (stateObject this) partial\<rparr>)))"

subsection \<open>_onEnvPresetSettingChange\<close>

text \<open>
  Storing \<open>value\<close> under \<open>name\<close> in an EnvConfig, when the name is one of its keys and
  the value has the type of that key.
\<close>

definition EnvConfig_with :: "EnvConfig \<Rightarrow> string \<Rightarrow> JsValue \<Rightarrow> EnvConfig option" where
  "EnvConfig_with ec name v =
     (if name = ''browsers''
      then (case v of JsString s \<Rightarrow> Some (ec\<lparr>browsers := s\<rparr>) | _ \<Rightarrow> None)
      else if name = ''electron''
      then (case v of
              JsNumber r \<Rightarrow> Some (ec\<lparr>electron := Some r\<rparr>)
            | JsNull \<Rightarrow> Some (ec\<lparr>electron := None\<rparr>)
            | _ \<Rightarrow> None)
      else if name = ''isEnvPresetEnabled''
      then (case v of JsBoolean b \<Rightarrow> Some (ec\<lparr>isEnvPresetEnabled := b\<rparr>) | _ \<Rightarrow> None)
      else if name = ''isElectronEnabled''
      then (case v of JsBoolean b \<Rightarrow> Some (ec\<lparr>isElectronEnabled := b\<rparr>) | _ \<Rightarrow> None)
      else if name = ''isNodeEnabled''
      then (case v of JsBoolean b \<Rightarrow> Some (ec\<lparr>isNodeEnabled := b\<rparr>) | _ \<Rightarrow> None)
      else if name = ''node''
      then (case v of
              JsNumber r \<Rightarrow> Some (ec\<lparr>node := Some r\<rparr>)
            | JsNull \<Rightarrow> Some (ec\<lparr>node := None\<rparr>)
            | _ \<Rightarrow> None)
      else None)"

text \<open>
  The updater returns \<open>{envConfig: {...state.envConfig, [name]: value}}\<close>. Spreading a
  boolean gives no property, so when \<open>state.envConfig\<close> holds a boolean the new object
  has the one property \<open>name\<close>: the fields of EnvConfig read as \<open>undefined\<close>. The value
  goes to the field of \<open>declared\<close> when it has the type of the key, and to
  \<open>envConfig_stored\<close> otherwise.
\<close>

definition onEnvPresetSettingChange_updater ::
  "string \<Rightarrow> JsValue \<Rightarrow> StateObject \<Rightarrow> StateObject" where
  "onEnvPresetSettingChange_updater name v obj =
     (let obj = (case stored_boolean obj ''envConfig'' of
                   Some b \<Rightarrow>
                     obj\<lparr>overwritten := AList.delete ''envConfig'' (overwritten obj),
                         envConfig_stored := map (\<lambda>key. (key, JsUndefined)) EnvConfig_keys\<rparr>
                 | None \<Rightarrow> obj)
      in case EnvConfig_with (envConfig (declared obj)) name v of
           Some ec \<Rightarrow>
             obj\<lparr>declared := (declared obj)\<lparr>envConfig := ec\<rparr>,
                 envConfig_stored := AList.delete name (envConfig_stored obj)\<rparr>
         | None \<Rightarrow> obj\<lparr>envConfig_stored := AList.update name v (envConfig_stored obj)\<rparr>)"

definition onEnvPresetSettingChange ::
  "string \<Rightarrow> JsValue \<Rightarrow> ReplObject \<Rightarrow> ReplObject \<times> ObjectCall list" where
  "onEnvPresetSettingChange name v this =
     presetsUpdatedSetStateCallback
       (this\<lparr>stateObject := onEnvPresetSettingChange_updater name v (stateObject this)\<rparr>)"

subsection \<open>render\<close>

record ReplOptionsProps =
  o_builtIns :: bool
  o_debugEnvPreset :: bool
  o_envConfig :: EnvConfig
  o_envPresetState :: PluginState
  o_isExpanded :: bool
  o_lineWrap :: bool
  o_pluginState :: PluginStateMap
  o_presetState :: PluginStateMap
  o_runtimePolyfillState :: PluginState

record CodeMirrorPanelProps =
  m_code :: "string option"
  m_error :: "Error option"
  m_info :: "string option"
  m_lineWrapping :: bool
  m_placeholder :: string

datatype Rendered =
    Loader string bool
  | ReplView ReplOptionsProps CodeMirrorPanelProps CodeMirrorPanelProps

definition render :: "Repl \<Rightarrow> Rendered" where
  "render this =
     (let st = state this
      in if \<not> isLoaded (babel st)
         then Loader
                (if didError (babel st)
                 then (case errorMessage (babel st) of
                         None \<Rightarrow> ''An error occurred while loading Babel :(''
                       | Some m \<Rightarrow>
                           if truthy_string m then m
                           else ''An error occurred while loading Babel :('')
                 else ''Loading Babel...'')
                (isLoading (babel st))
         else ReplView
                \<lparr> o_builtIns = builtIns st,
                  o_debugEnvPreset = debugEnvPreset st,
                  o_envConfig = envConfig st,
                  o_envPresetState = envPresetState st,
                  o_isExpanded = isSidebarExpanded st,
                  o_lineWrap = lineWrap st,
                  o_pluginState = plugins st,
                  o_presetState = presets st,
                  o_runtimePolyfillState = runtimePolyfillState st \<rparr>
                \<lparr> m_code = Some (code st),
                  m_error = compileError st,
                  m_info = None,
                  m_lineWrapping = lineWrap st,
                  m_placeholder = ''Write code here'' \<rparr>
                \<lparr> m_code = compiled st,
                  m_error = evalError st,
                  m_info = (if debugEnvPreset st then envPresetDebugInfo st else None),
                  m_lineWrapping = lineWrap st,
                  m_placeholder = ''Compiled output will be shown here'' \<rparr>)"

subsection \<open>The debounce around _compileToState\<close>

text \<open>
  \<open>_compileToState\<close> is \<open>debounce(f, DEBOUNCE_DELAY)\<close>, with \<open>debounce\<close> imported
  from lodash.debounce, a library that is not among the sources. The spec speaks of
  debounced recompilation; the comments in Repl.js say that the state is updated with the
  compiled code after a small delay, to prevent frequent updates while a user is typing.
  Time is a number of milliseconds.
\<close>

text \<open>
  Modelled from the spec: the state of the debounced function; \<open>lodash.debounce\<close> is
  missing. \<open>lastArgs\<close> holds the arguments of the last call while the timer runs.
\<close>

record Debounced =
  lastArgs :: "string option"
  lastCallTime :: nat

text \<open>
  Modelled from the spec: a call of the debounced function (\<open>lodash.debounce\<close> is
  missing) stores its arguments and restarts the timer. A call of the component reaches
  the debounce when it is a call of \<open>_compileToState\<close>.
\<close>

fun deliver :: "nat \<Rightarrow> Debounced \<Rightarrow> Call \<Rightarrow> Debounced" where
  "deliver now d (CompileToState args) = \<lparr> lastArgs = Some args, lastCallTime = now \<rparr>"
| "deliver now d c = d"

record Scheduled =
  component :: Repl
  debounced :: Debounced

text \<open>
  Modelled from the spec: the timer of the debounced function (\<open>lodash.debounce\<close> is
  missing). Time passes until \<open>now\<close>; once \<open>DEBOUNCE_DELAY\<close> milliseconds have passed
  since the last call, the wrapped function runs once, with the stored arguments (the
  trailing edge), and nothing is pending any more.
\<close>

definition elapse :: "Imports \<Rightarrow> nat \<Rightarrow> Scheduled \<Rightarrow> Error + (Scheduled \<times> Call list)" where
  "elapse X now s =
     (case lastArgs (debounced s) of
        None \<Rightarrow> Inr (s, [])
      | Some args \<Rightarrow>
          if lastCallTime (debounced s) + DEBOUNCE_DELAY \<le> now
          then (case compileToState X args (component s) of
                  Inl e \<Rightarrow> Inl e
                | Inr (this', calls) \<Rightarrow>
                    Inr (\<lparr> component = this',
                           debounced = (debounced s)\<lparr>lastArgs := None\<rparr> \<rparr>, calls))
          else Inr (s, []))"

text \<open>\<open>_updateCode(code)\<close> is called at time \<open>now\<close>.\<close>

definition updateCode_at ::
  "Imports \<Rightarrow> nat \<Rightarrow> string \<Rightarrow> Scheduled \<Rightarrow> Error + (Scheduled \<times> Call list)" where
  "updateCode_at X now code' s =
     (case elapse X now s of
        Inl e \<Rightarrow> Inl e
      | Inr (s1, calls1) \<Rightarrow>
          (let (this', calls2) = updateCode code' (component s1)
           in Inr (\<lparr> component = this',
                     debounced = foldl (deliver now) (debounced s1) calls2 \<rparr>,
                   calls1 @ calls2)))"

text \<open>A sequence of calls of \<open>_updateCode\<close>, each with the time at which it arrives.\<close>

fun updateCode_calls ::
  "Imports \<Rightarrow> (nat \<times> string) list \<Rightarrow> Scheduled \<Rightarrow> Error + (Scheduled \<times> Call list)" where
  "updateCode_calls X [] s = Inr (s, [])"
| "updateCode_calls X ((now, code') # rest) s =
     (case updateCode_at X now code' s of
        Inl e \<Rightarrow> Inl e
      | Inr (s1, calls1) \<Rightarrow>
          (case updateCode_calls X rest s1 of
             Inl e \<Rightarrow> Inl e
           | Inr (s2, calls2) \<Rightarrow> Inr (s2, calls1 @ calls2)))"

text \<open>
  A burst: the calls arrive in order of time, each less than \<open>DEBOUNCE_DELAY\<close> after
  the one before it.
\<close>

fun burst :: "(nat \<times> string) list \<Rightarrow> bool" where
  "burst [] = True"
| "burst [c] = True"
| "burst ((t1, c1) # (t2, c2) # rest) =
     (t1 \<le> t2 \<and> t2 < t1 + DEBOUNCE_DELAY \<and> burst ((t2, c2) # rest))"

fun isCompile :: "Call \<Rightarrow> bool" where
  "isCompile (Compile c cfg) = True"
| "isCompile c = False"

subsection \<open>Plugin loads in flight\<close>

text \<open>
  The component together with the number of plugin loads that \<open>loadPlugin\<close> has been
  asked for and whose callback has not run yet. Between the runs of
  \<open>_checkForUnloadedPlugins\<close> and of the callbacks, the state may change in any way
  (the other methods and \<open>loadPlugin\<close> write it; none of them writes the counter).
\<close>

fun isPluginLoad :: "Call \<Rightarrow> bool" where
  "isPluginLoad (LoadPlugin p PluginLoadCallback) = True"
| "isPluginLoad c = False"

datatype Event =
    CheckForUnloadedPlugins
  | PluginLoadDone PluginStateMap bool
  | StateChange State

record Loading =
  repl :: Repl
  inFlight :: nat

fun step :: "Event \<Rightarrow> Loading \<Rightarrow> (Loading \<times> Call list) option" where
  "step CheckForUnloadedPlugins l =
     (let (this', calls) = checkForUnloadedPlugins (repl l)
      in Some (\<lparr> repl = this',
                 inFlight = inFlight l + length (filter isPluginLoad calls) \<rparr>, calls))"
| "step (PluginLoadDone plugins' success) l =
     (if inFlight l = 0 then None
      else (let (this', calls) = pluginLoadCallback plugins' success (repl l)
            in Some (\<lparr> repl = this', inFlight = inFlight l - 1 \<rparr>, calls)))"
| "step (StateChange st) l = Some (l\<lparr>repl := (repl l)\<lparr>state := st\<rparr>\<rparr>, [])"

fun steps :: "Event list \<Rightarrow> Loading \<Rightarrow> Loading option" where
  "steps [] l = Some l"
| "steps (e # es) l = (case step e l of None \<Rightarrow> None | Some (l', calls) \<Rightarrow> steps es l')"

text \<open>The component as the constructor leaves it: the counter is 0, nothing is in flight.\<close>

definition constructed :: "State \<Rightarrow> Loading" where
  "constructed st = \<lparr> repl = \<lparr> state = st, numLoadingPlugins = 0 \<rparr>, inFlight = 0 \<rparr>"

subsection \<open>A concrete component\<close>

definition example_plugin :: "string \<Rightarrow> bool \<Rightarrow> bool \<Rightarrow> bool \<Rightarrow> PluginState" where
  "example_plugin l enabled loaded loading =
     \<lparr> didError = False, isLoaded = loaded, isLoading = loading,
       config = \<lparr> label = l \<rparr>, isEnabled = enabled, plugin = None \<rparr>"

definition example_State :: State where
  "example_State =
     \<lparr> babel = \<lparr> didError = False, isLoaded = True, isLoading = False,
                 build = ''1'', circleciRepo = ''babel/babel'', errorMessage = None,
                 version = ''6.26.0'' \<rparr>,
       builtIns = True,
       code = ''x'',
       compiled = Some ''y'',
       compileError = None,
       debugEnvPreset = True,
       envConfig = \<lparr> browsers = ''ie 11, chrome 60'', electron = None,
                     isEnvPresetEnabled = True, isElectronEnabled = False,
                     isNodeEnabled = False, node = None \<rparr>,
       envPresetDebugInfo = None,
       envPresetState = example_plugin ''env'' True True False,
       evalError = None,
       isSidebarExpanded = True,
       lineWrap = False,
       plugins = [(''babili-standalone'', example_plugin ''babili'' True False False),
                  (''prettier'', example_plugin ''prettier'' False False False)],
       presets = [(''babel-preset-es2015'', example_plugin ''es2015'' True True False),
                  (''babel-preset-react'', example_plugin ''react'' True False False),
                  (''babel-preset-stage-2'', example_plugin ''stage-2'' True True False)],
       runtimePolyfillState = example_plugin ''babel-polyfill'' True False False,
       sourceMap = None \<rparr>"

definition example_Imports :: Imports where
  "example_Imports =
     \<lparr> compile = (\<lambda>c cfg. (\<lparr> r_compiled = Some c, r_compileError = None,
                             r_evalError = None, r_sourceMap = None \<rparr>, [''built''])),
       scopedEval = (\<lambda>c m. if c = ''throw'' then Inl (ThrownError ''thrown'') else Inr ()),
       getDebugInfoFromEnvResult = (\<lambda>r. Some r),
       envConfigToTargetsString = (\<lambda>e. browsers e) \<rparr>"

definition example_Repl :: Repl where
  "example_Repl = \<lparr> state = example_State, numLoadingPlugins = 0 \<rparr>"

definition example_persisted :: PersistedState where
  "example_persisted =
     \<lparr> p_babili = True, p_browsers = ''ie 11, chrome 60'', p_build = ''1'',
       p_builtIns = True, p_circleciRepo = ''babel/babel'', p_code = ''x'',
       p_debug = True, p_evaluate = True, p_lineWrap = False,
       p_presets = ''es2015,stage-2,babili,env'', p_prettier = False,
       p_showSidebar = True, p_targets = ''ie 11, chrome 60'', p_version = ''6.26.0'' \<rparr>"

definition example_four_plugins :: Repl where
  "example_four_plugins =
     example_Repl\<lparr>state := example_State
       \<lparr>plugins := [(''babili-standalone'', example_plugin ''babili'' True False False),
                    (''prettier'', example_plugin ''prettier'' False False False),
                    (''loaded'', example_plugin ''loaded'' True True False),
                    (''loading'', example_plugin ''loading'' True False True)]\<rparr>\<rparr>"

definition example_evaluating :: State where
  "example_evaluating =
     example_State\<lparr>runtimePolyfillState := example_plugin ''babel-polyfill'' True True False\<rparr>"

definition example_two_loads :: State where
  "example_two_loads =
     example_State\<lparr>plugins := [(''babili-standalone'', example_plugin ''babili'' True False False),
                                (''prettier'', example_plugin ''prettier'' True False False)]\<rparr>"

definition example_Scheduled :: Scheduled where
  "example_Scheduled =
     \<lparr> component = example_Repl, debounced = \<lparr> lastArgs = None, lastCallTime = 0 \<rparr> \<rparr>"

text \<open>The same component with its state as an object, after \<open>_setupBabel\<close> has spread
  the loaded \<open>babelState\<close> into it.\<close>

definition example_StateObject :: StateObject where
  "example_StateObject = (object_of example_State)\<lparr>spread := spread_of (babel example_State)\<rparr>"

definition example_ReplObject :: ReplObject where
  "example_ReplObject = \<lparr> stateObject = example_StateObject, o_numLoadingPlugins = 0 \<rparr>"

section \<open>Properties\<close>

subsection \<open>What the methods return\<close>

lemma foldl_assign_last:
  "foldl (\<lambda>info r. g r) init builds = (if builds = [] then init else g (last builds))"
  by (induction builds arbitrary: init) auto

lemma Repl_compile_Inr:
  assumes "Repl_compile X c st = Inr (r, calls)"
  shows "\<exists>babili prettier cfg.
           map_of (plugins st) ''babili-standalone'' = Some babili
         \<and> map_of (plugins st) ''prettier'' = Some prettier
         \<and> calls = [Compile c cfg]
         \<and> cfg_evaluate cfg
             = (isEnabled (runtimePolyfillState st) \<and> isLoaded (runtimePolyfillState st))
         \<and> cfg_sourceMap cfg = isEnabled (runtimePolyfillState st)
         \<and> cfg_prettify cfg = isEnabled prettier
         \<and> (\<forall>n opts. PresetWithOptions n opts \<in> set (cfg_presets cfg) \<longrightarrow>
                n = ''env'' \<and> useBuiltIns opts = builtIns st
              \<and> isEnvPresetEnabled (envConfig st) \<and> isLoaded (envPresetState st))
         \<and> (isEnvPresetEnabled (envConfig st) \<and> isLoaded (envPresetState st) \<longrightarrow>
               (\<exists>opts. PresetWithOptions ''env'' opts \<in> set (cfg_presets cfg)))
         \<and> r_compiled r = r_compiled (fst (compile X c cfg))
         \<and> r_compileError r = r_compileError (fst (compile X c cfg))
         \<and> r_evalError r = r_evalError (fst (compile X c cfg))
         \<and> r_sourceMap r = r_sourceMap (fst (compile X c cfg))
         \<and> r_envPresetDebugInfo r
             = (if debugEnvPreset st \<and> isEnvPresetEnabled (envConfig st)
                   \<and> isLoaded (envPresetState st) \<and> snd (compile X c cfg) \<noteq> []
                then getDebugInfoFromEnvResult X (last (snd (compile X c cfg))) else None)"
proof (cases "map_of (plugins st) ''babili-standalone''")
  case None
  with assms show ?thesis by (simp add: Repl_compile_def)
next
  case (Some babili)
  note b = this
  show ?thesis
  proof (cases "map_of (plugins st) ''prettier''")
    case None
    with assms b show ?thesis by (simp add: Repl_compile_def Let_def)
  next
    case (Some prettier)
    note p = this
    define envPreset where
      "envPreset = (isEnvPresetEnabled (envConfig st) \<and> isLoaded (envPresetState st))"
    define hook where
      "hook = (if envPreset \<and> debugEnvPreset st then Some AssignEnvPresetDebugInfo else None)"
    define opts where
      "opts = \<lparr> onPresetBuild = hook,
                targets =
                  \<lparr> t_browsers =
                      (if truthy_string (browsers (envConfig st))
                       then Some (filter truthy_string
                                    (map trim (split_comma (browsers (envConfig st)))))
                       else None),
                    t_electron =
                      (if isElectronEnabled (envConfig st) then Some (electron (envConfig st))
                       else None),
                    t_node =
                      (if isNodeEnabled (envConfig st) then Some (node (envConfig st))
                       else None) \<rparr>,
                useBuiltIns = (\<not> truthy (getProperty st ''evaluate'') \<and> builtIns st) \<rparr>"
    define arr where
      "arr = map PresetName (presetsToArray st)
             @ (if isEnabled babili \<and> isLoaded babili then [PresetName ''babili''] else [])
             @ (if envPreset then [PresetWithOptions ''env'' opts] else [])"
    define cfg where
      "cfg = \<lparr> cfg_evaluate =
                 (isEnabled (runtimePolyfillState st) \<and> isLoaded (runtimePolyfillState st)),
               cfg_presets = arr,
               cfg_prettify = isEnabled prettier,
               cfg_sourceMap = isEnabled (runtimePolyfillState st) \<rparr>"
    define info where
      "info = (case hook of
                 None \<Rightarrow> None
               | Some AssignEnvPresetDebugInfo \<Rightarrow>
                   foldl (\<lambda>info r. getDebugInfoFromEnvResult X r) None (snd (compile X c cfg)))"
    have "Repl_compile X c st
            = Inr (CompileReturn.extend (fst (compile X c cfg)) (CompileState.fields info),
                   [Compile c cfg])"
      by (simp add: Repl_compile_def Let_def b p cfg_def arr_def opts_def hook_def info_def
                    envPreset_def)
    with assms have r: "r = CompileReturn.extend (fst (compile X c cfg)) (CompileState.fields info)"
      and c: "calls = [Compile c cfg]" by simp_all
    have u: "useBuiltIns opts = builtIns st"
      by (simp add: opts_def getProperty_def)
    have pr: "\<forall>n o'. PresetWithOptions n o' \<in> set (cfg_presets cfg) \<longrightarrow>
                n = ''env'' \<and> useBuiltIns o' = builtIns st
              \<and> isEnvPresetEnabled (envConfig st) \<and> isLoaded (envPresetState st)"
      using u by (auto simp: cfg_def arr_def envPreset_def split: if_splits)
    have ex: "isEnvPresetEnabled (envConfig st) \<and> isLoaded (envPresetState st) \<longrightarrow>
               (\<exists>o'. PresetWithOptions ''env'' o' \<in> set (cfg_presets cfg))"
      by (auto simp: cfg_def arr_def envPreset_def)
    have i: "info = (if debugEnvPreset st \<and> isEnvPresetEnabled (envConfig st)
                   \<and> isLoaded (envPresetState st) \<and> snd (compile X c cfg) \<noteq> []
                then getDebugInfoFromEnvResult X (last (snd (compile X c cfg))) else None)"
      by (simp add: info_def hook_def envPreset_def foldl_assign_last)
    have f: "r_compiled r = r_compiled (fst (compile X c cfg))"
            "r_compileError r = r_compileError (fst (compile X c cfg))"
            "r_evalError r = r_evalError (fst (compile X c cfg))"
            "r_sourceMap r = r_sourceMap (fst (compile X c cfg))"
            "r_envPresetDebugInfo r = info"
      by (simp_all add: r CompileReturn.defs CompileState.defs)
    have e: "cfg_evaluate cfg
             = (isEnabled (runtimePolyfillState st) \<and> isLoaded (runtimePolyfillState st))"
         "cfg_sourceMap cfg = isEnabled (runtimePolyfillState st)"
         "cfg_prettify cfg = isEnabled prettier"
      by (simp_all add: cfg_def)
    show ?thesis
      using b p c e pr ex f i by blast
  qed
qed

lemma persistState_Inr:
  assumes "persistState X this = Inr calls"
  shows "\<exists>babili prettier st.
           map_of (plugins (state this)) ''babili-standalone'' = Some babili
         \<and> map_of (plugins (state this)) ''prettier'' = Some prettier
         \<and> calls = [StorageSet ''replState'' st, UpdateQuery st]
         \<and> p_presets st =
             join_comma
               (map (\<lambda>kv. label (config (snd kv)))
                  (filter (\<lambda>kv. isEnabled (snd kv) \<and> isLoaded (snd kv)) (presets (state this)))
                @ (if isEnabled babili then [''babili''] else [])
                @ (if isEnvPresetEnabled (envConfig (state this)) then [''env''] else []))"
proof (cases "map_of (plugins (state this)) ''babili-standalone''")
  case None
  with assms show ?thesis by (simp add: persistState_def)
next
  case (Some babili)
  note b = this
  show ?thesis
  proof (cases "map_of (plugins (state this)) ''prettier''")
    case None
    with assms b show ?thesis by (simp add: persistState_def Let_def)
  next
    case (Some prettier)
    note p = this
    define arr where
      "arr = map (\<lambda>kv. label (config (snd kv)))
               (filter (\<lambda>kv. isEnabled (snd kv) \<and> isLoaded (snd kv)) (presets (state this)))
             @ (if isEnabled babili then [''babili''] else [])
             @ (if isEnvPresetEnabled (envConfig (state this)) then [''env''] else [])"
    define S where
      "S = \<lparr> p_babili = isEnabled babili,
             p_browsers = browsers (envConfig (state this)),
             p_build = build (babel (state this)),
             p_builtIns = builtIns (state this),
             p_circleciRepo = circleciRepo (babel (state this)),
             p_code = code (state this),
             p_debug = debugEnvPreset (state this),
             p_evaluate = isEnabled (runtimePolyfillState (state this)),
             p_lineWrap = lineWrap (state this),
             p_presets = join_comma arr,
             p_prettier = isEnabled prettier,
             p_showSidebar = isSidebarExpanded (state this),
             p_targets = envConfigToTargetsString X (envConfig (state this)),
             p_version = version (babel (state this)) \<rparr>"
    have "persistState X this = Inr [StorageSet ''replState'' S, UpdateQuery S]"
      by (simp add: persistState_def presetsToArray_def Let_def b p S_def arr_def)
    with assms have c: "calls = [StorageSet ''replState'' S, UpdateQuery S]" by simp
    have "p_presets S = join_comma arr" by (simp add: S_def)
    with b p c show ?thesis unfolding arr_def by blast
  qed
qed

lemma persistState_total:
  assumes "map_of (plugins (state this)) ''babili-standalone'' = Some babili"
    and "map_of (plugins (state this)) ''prettier'' = Some prettier"
  shows "\<exists>calls. persistState X this = Inr calls"
  using assms by (simp add: persistState_def Let_def)

lemma Repl_compile_total:
  assumes "map_of (plugins st) ''babili-standalone'' = Some babili"
    and "map_of (plugins st) ''prettier'' = Some prettier"
  shows "\<exists>r calls. Repl_compile X c st = Inr (r, calls)"
  using assms by (simp add: Repl_compile_def Let_def)

lemma plugins_setState_CompileState [simp]:
  "plugins (setState_CompileState st r) = plugins st"
  by (simp add: setState_CompileState_def)

lemma code_setState_CompileState [simp]:
  "code (setState_CompileState st r) = code st"
  by (simp add: setState_CompileState_def)

lemma compileToState_Inr:
  assumes "compileToState X c this = Inr (this', calls)"
  shows "\<exists>r cfg calls'.
           Repl_compile X c (state this) = Inr (r, [Compile c cfg])
         \<and> this' = this\<lparr>state := setState_CompileState (state this) r\<rparr>
         \<and> persistState X this' = Inr calls'
         \<and> calls = Compile c cfg # calls'"
proof (cases "Repl_compile X c (state this)")
  case (Inl e)
  with assms show ?thesis by (simp add: compileToState_def)
next
  case (Inr rc)
  obtain r calls0 where rc: "rc = (r, calls0)" by (cases rc)
  from Repl_compile_Inr [of X c "state this" r calls0] Inr rc
  obtain cfg where cfg: "calls0 = [Compile c cfg]" by auto
  define t where "t = this\<lparr>state := setState_CompileState (state this) r\<rparr>"
  show ?thesis
  proof (cases "persistState X t")
    case (Inl e)
    with assms Inr rc show ?thesis by (simp add: compileToState_def Let_def t_def)
  next
    case inr: (Inr calls')
    with assms Inr rc cfg have "this' = t" "calls = Compile c cfg # calls'"
      by (simp_all add: compileToState_def Let_def t_def)
    with Inr rc cfg inr show ?thesis unfolding t_def by blast
  qed
qed

lemma compileToState_total:
  assumes "map_of (plugins (state this)) ''babili-standalone'' = Some babili"
    and "map_of (plugins (state this)) ''prettier'' = Some prettier"
  shows "\<exists>this' calls. compileToState X c this = Inr (this', calls)"
proof -
  from Repl_compile_total [OF assms] obtain r calls0
    where rc: "Repl_compile X c (state this) = Inr (r, calls0)" by blast
  define t where "t = this\<lparr>state := setState_CompileState (state this) r\<rparr>"
  have "map_of (plugins (state t)) ''babili-standalone'' = Some babili"
       "map_of (plugins (state t)) ''prettier'' = Some prettier"
    using assms by (simp_all add: t_def)
  from persistState_total [OF this] obtain calls' where "persistState X t = Inr calls'" by blast
  with rc show ?thesis by (simp add: compileToState_def Let_def t_def)
qed

lemma example_persistState:
  "persistState example_Imports example_Repl
     = Inr [StorageSet ''replState'' example_persisted, UpdateQuery example_persisted]"
  by (simp add: persistState_def presetsToArray_def Let_def example_Repl_def
                example_State_def example_plugin_def example_Imports_def example_persisted_def)

lemma forIn_plugins_calls:
  "snd (forIn_plugins m n)
     = map (\<lambda>kv. LoadPlugin (snd kv) PluginLoadCallback)
         (filter (\<lambda>kv. isEnabled (snd kv) \<and> \<not> isLoaded (snd kv) \<and> \<not> isLoading (snd kv)) m)"
  by (induction m n rule: forIn_plugins.induct) (auto split: prod.splits)

lemma forIn_plugins_counter:
  "fst (forIn_plugins m n)
     = n + int (length (filter (\<lambda>kv. isEnabled (snd kv) \<and> \<not> isLoaded (snd kv)
                                      \<and> \<not> isLoading (snd kv)) m))"
  by (induction m n rule: forIn_plugins.induct) (auto split: prod.splits)

lemma checkForUnloadedPlugins_calls:
  "snd (checkForUnloadedPlugins this)
     = map (\<lambda>kv. LoadPlugin (snd kv) PluginLoadCallback)
         (filter (\<lambda>kv. isEnabled (snd kv) \<and> \<not> isLoaded (snd kv) \<and> \<not> isLoading (snd kv))
            (plugins (state this)))
       @ (if isEnabled (runtimePolyfillState (state this))
             \<and> \<not> isLoaded (runtimePolyfillState (state this))
          then [LoadPlugin (runtimePolyfillState (state this)) RuntimePolyfillLoadCallback]
          else [])
       @ (if isEnvPresetEnabled (envConfig (state this))
             \<and> \<not> isLoaded (envPresetState (state this))
          then [LoadPlugin (envPresetState (state this)) EnvPresetLoadCallback] else [])"
proof -
  obtain n loads where f: "forIn_plugins (plugins (state this)) (numLoadingPlugins this) = (n, loads)"
    by (cases "forIn_plugins (plugins (state this)) (numLoadingPlugins this)")
  from forIn_plugins_calls [of "plugins (state this)" "numLoadingPlugins this"]
  have "loads = map (\<lambda>kv. LoadPlugin (snd kv) PluginLoadCallback)
         (filter (\<lambda>kv. isEnabled (snd kv) \<and> \<not> isLoaded (snd kv) \<and> \<not> isLoading (snd kv))
            (plugins (state this)))"
    by (simp add: f)
  then show ?thesis
    by (simp add: checkForUnloadedPlugins_def Let_def f)
qed

lemma checkForUnloadedPlugins_this:
  "fst (checkForUnloadedPlugins this)
     = this\<lparr>numLoadingPlugins :=
              numLoadingPlugins this
              + int (length (filter (\<lambda>kv. isEnabled (snd kv) \<and> \<not> isLoaded (snd kv)
                                          \<and> \<not> isLoading (snd kv)) (plugins (state this))))\<rparr>"
proof -
  obtain n loads where f: "forIn_plugins (plugins (state this)) (numLoadingPlugins this) = (n, loads)"
    by (cases "forIn_plugins (plugins (state this)) (numLoadingPlugins this)")
  from forIn_plugins_counter [of "plugins (state this)" "numLoadingPlugins this"]
  have "n = numLoadingPlugins this
              + int (length (filter (\<lambda>kv. isEnabled (snd kv) \<and> \<not> isLoaded (snd kv)
                                          \<and> \<not> isLoading (snd kv)) (plugins (state this))))"
    by (simp add: f)
  then show ?thesis
    by (simp add: checkForUnloadedPlugins_def Let_def f)
qed

lemma filter_isPluginLoad_calls:
  "filter isPluginLoad (snd (checkForUnloadedPlugins this))
     = map (\<lambda>kv. LoadPlugin (snd kv) PluginLoadCallback)
         (filter (\<lambda>kv. isEnabled (snd kv) \<and> \<not> isLoaded (snd kv) \<and> \<not> isLoading (snd kv))
            (plugins (state this)))"
  by (simp add: checkForUnloadedPlugins_calls filter_map comp_def)

lemma runtimePolyfillLoadCallback_early:
  assumes "compiled (state this) = None \<or> compiled (state this) = Some []"
  shows "runtimePolyfillLoadCallback X this = Inr (this, [])"
  using assms
  by (auto simp: runtimePolyfillLoadCallback_def nullable_string_def truthy_string_def)

lemma runtimePolyfillLoadCallback_eval:
  assumes "compiled (state this) = Some c" and "c \<noteq> []"
  shows "runtimePolyfillLoadCallback X this
           = Inr (this\<lparr>state := (state this)
                     \<lparr>evalError := (case scopedEval X c (sourceMap (state this)) of
                                      Inl error \<Rightarrow> Some error | Inr u \<Rightarrow> None)\<rparr>\<rparr>,
                  [ScopedEval c (sourceMap (state this))])"
  using assms
  by (simp add: runtimePolyfillLoadCallback_def nullable_string_def truthy_string_def Let_def)

lemma state_checkForUnloadedPlugins [simp]:
  "state (fst (checkForUnloadedPlugins this)) = state this"
  by (simp add: checkForUnloadedPlugins_this)


lemma length_assign_isEnabled [simp]:
  "length (assign_isEnabled m name b) = length m"
  by (simp add: assign_isEnabled_def)

lemma pluginLoadCallback_counter:
  "numLoadingPlugins (fst (pluginLoadCallback plugins' success this)) = numLoadingPlugins this - 1"
  by (simp add: pluginLoadCallback_def updateCode_def Let_def)

lemma pluginLoadCallback_calls:
  "snd (pluginLoadCallback plugins' success this)
     = (if numLoadingPlugins this - 1 = 0 then [CompileToState (code (state this))] else [])"
  by (simp add: pluginLoadCallback_def updateCode_def Let_def)

lemma pluginLoadCallback_state:
  "state (fst (pluginLoadCallback plugins' success this))
     = (if success then state this else (state this)\<lparr>plugins := plugins'\<rparr>)"
  by (simp add: pluginLoadCallback_def updateCode_def Let_def)

lemma checkForUnloadedPlugins_counter:
  "numLoadingPlugins (fst (checkForUnloadedPlugins this))
     = numLoadingPlugins this
       + int (length (filter isPluginLoad (snd (checkForUnloadedPlugins this))))"
  by (simp add: checkForUnloadedPlugins_this filter_isPluginLoad_calls)

lemma step_keeps_count:
  assumes "numLoadingPlugins (repl l) = int (inFlight l)"
    and "step e l = Some (l', calls)"
  shows "numLoadingPlugins (repl l') = int (inFlight l')"
proof (cases e)
  case CheckForUnloadedPlugins
  obtain this' cs where c: "checkForUnloadedPlugins (repl l) = (this', cs)"
    by (cases "checkForUnloadedPlugins (repl l)")
  from checkForUnloadedPlugins_counter [of "repl l"] c
  have "numLoadingPlugins this' = numLoadingPlugins (repl l) + int (length (filter isPluginLoad cs))"
    by simp
  with assms CheckForUnloadedPlugins c show ?thesis by auto
next
  case (PluginLoadDone plugins' success)
  obtain this' cs where c: "pluginLoadCallback plugins' success (repl l) = (this', cs)"
    by (cases "pluginLoadCallback plugins' success (repl l)")
  from pluginLoadCallback_counter [of plugins' success "repl l"] c
  have "numLoadingPlugins this' = numLoadingPlugins (repl l) - 1" by simp
  with assms PluginLoadDone c show ?thesis by (auto split: if_splits)
next
  case (StateChange st)
  with assms show ?thesis by auto
qed

lemma steps_keep_count:
  assumes "numLoadingPlugins (repl l) = int (inFlight l)"
    and "steps es l = Some l'"
  shows "numLoadingPlugins (repl l') = int (inFlight l')"
  using assms
proof (induction es arbitrary: l)
  case Nil
  then show ?case by simp
next
  case (Cons e es)
  from Cons.prems(2) obtain l1 calls where s: "step e l = Some (l1, calls)"
    and r: "steps es l1 = Some l'"
    by (auto split: option.splits)
  from step_keeps_count [OF Cons.prems(1) s] have "numLoadingPlugins (repl l1) = int (inFlight l1)" .
  from Cons.IH [OF this r] show ?case .
qed

lemma updateCode_at_quiet:
  assumes "lastArgs (debounced s) = None \<or> now < lastCallTime (debounced s) + DEBOUNCE_DELAY"
  shows "updateCode_at X now c s
           = Inr (\<lparr> component = (component s)\<lparr>state := (state (component s))\<lparr>code := c\<rparr>\<rparr>,
                    debounced = \<lparr> lastArgs = Some c, lastCallTime = now \<rparr> \<rparr>,
                  [CompileToState c])"
proof -
  from assms have "elapse X now s = Inr (s, [])"
    by (auto simp: elapse_def split: option.splits)
  then show ?thesis
    by (simp add: updateCode_at_def updateCode_def)
qed

lemma updateCode_calls_burst:
  assumes "burst ((t, c) # rest)"
    and "lastArgs (debounced s) = None \<or> t < lastCallTime (debounced s) + DEBOUNCE_DELAY"
  shows "updateCode_calls X ((t, c) # rest) s
           = Inr (\<lparr> component = (component s)
                       \<lparr>state := (state (component s))\<lparr>code := snd (last ((t, c) # rest))\<rparr>\<rparr>,
                    debounced = \<lparr> lastArgs = Some (snd (last ((t, c) # rest))),
                                  lastCallTime = fst (last ((t, c) # rest)) \<rparr> \<rparr>,
                  map (\<lambda>call. CompileToState (snd call)) ((t, c) # rest))"
  using assms
proof (induction rest arbitrary: t c s)
  case Nil
  from updateCode_at_quiet [OF Nil.prems(2), of X c] show ?case by simp
next
  case (Cons call rest)
  obtain t2 c2 where call: "call = (t2, c2)" by (cases call)
  from Cons.prems(1) call have b: "burst ((t2, c2) # rest)" and near: "t2 < t + DEBOUNCE_DELAY"
    by simp_all
  define s1 where
    "s1 = \<lparr> component = (component s)\<lparr>state := (state (component s))\<lparr>code := c\<rparr>\<rparr>,
            debounced = \<lparr> lastArgs = Some c, lastCallTime = t \<rparr> \<rparr>"
  from updateCode_at_quiet [OF Cons.prems(2), of X c]
  have first: "updateCode_at X t c s = Inr (s1, [CompileToState c])" by (simp add: s1_def)
  from near have "lastArgs (debounced s1) = None \<or> t2 < lastCallTime (debounced s1) + DEBOUNCE_DELAY"
    by (simp add: s1_def)
  from Cons.IH [OF b this]
  have "updateCode_calls X ((t2, c2) # rest) s1
           = Inr (\<lparr> component = (component s1)
                       \<lparr>state := (state (component s1))\<lparr>code := snd (last ((t2, c2) # rest))\<rparr>\<rparr>,
                    debounced = \<lparr> lastArgs = Some (snd (last ((t2, c2) # rest))),
                                  lastCallTime = fst (last ((t2, c2) # rest)) \<rparr> \<rparr>,
                  map (\<lambda>call. CompileToState (snd call)) ((t2, c2) # rest))" .
  with first call show ?case by (simp add: s1_def)
qed

lemma elapse_due:
  assumes "lastArgs (debounced s) = Some c"
    and "lastCallTime (debounced s) + DEBOUNCE_DELAY \<le> now"
    and "map_of (plugins (state (component s))) ''babili-standalone'' = Some babili"
    and "map_of (plugins (state (component s))) ''prettier'' = Some prettier"
  shows "\<exists>s' r cfg st.
           elapse X now s
             = Inr (s', [Compile c cfg, StorageSet ''replState'' st, UpdateQuery st])
         \<and> Repl_compile X c (state (component s)) = Inr (r, [Compile c cfg])
         \<and> component s'
             = (component s)\<lparr>state := setState_CompileState (state (component s)) r\<rparr>
         \<and> lastArgs (debounced s') = None"
proof -
  from compileToState_total [OF assms(3,4), of X c]
  obtain this' calls where e: "compileToState X c (component s) = Inr (this', calls)" by blast
  from compileToState_Inr [OF e] obtain r cfg calls' where
    rc: "Repl_compile X c (state (component s)) = Inr (r, [Compile c cfg])"
    and t: "this' = (component s)\<lparr>state := setState_CompileState (state (component s)) r\<rparr>"
    and p: "persistState X this' = Inr calls'" and c: "calls = Compile c cfg # calls'" by blast
  from persistState_Inr [OF p] obtain st where
    "calls' = [StorageSet ''replState'' st, UpdateQuery st]" by blast
  with c have cs: "calls = [Compile c cfg, StorageSet ''replState'' st, UpdateQuery st]" by simp
  define s' where "s' = \<lparr> component = this', debounced = (debounced s)\<lparr>lastArgs := None\<rparr> \<rparr>"
  from e cs assms(1,2)
  have "elapse X now s = Inr (s', [Compile c cfg, StorageSet ''replState'' st, UpdateQuery st])"
    by (simp add: elapse_def s'_def)
  moreover have "component s' = (component s)\<lparr>state := setState_CompileState (state (component s)) r\<rparr>"
    by (simp add: s'_def t)
  moreover have "lastArgs (debounced s') = None" by (simp add: s'_def)
  ultimately show ?thesis using rc by blast
qed

subsection \<open>What the methods on the state object return\<close>

text \<open>
  \<open>_checkForUnloadedPlugins\<close> and \<open>_updateCode\<close> with the code of the state leave the
  state object as it is, so the callback \<open>_presetsUpdatedSetStateCallback\<close> does; on a
  state in which no property holds a boolean out of its type,
  \<open>_checkForUnloadedPlugins\<close> on the object is the method on the typed state.
\<close>

lemma stateObject_checkForUnloadedPlugins_object [simp]:
  "stateObject (fst (checkForUnloadedPlugins_object this)) = stateObject this"
  by (simp add: checkForUnloadedPlugins_object_def Let_def split: prod.splits option.splits)

lemma stored_boolean_None_delete:
  assumes "stored_boolean obj key = None" and "key \<in> set overwritable_keys"
  shows "AList.delete key (overwritten obj) = overwritten obj"
proof -
  from assms have "map_of (overwritten obj) key = None" by (simp add: stored_boolean_def)
  then have "key \<notin> fst ` set (overwritten obj)" by (simp add: map_of_eq_None_iff)
  then show ?thesis by simp
qed

lemma stored_boolean_Some_update:
  assumes "stored_boolean obj key = Some v"
  shows "AList.update key v (overwritten obj) = overwritten obj"
proof -
  from assms have "map_of (overwritten obj) key = Some v"
    by (simp add: stored_boolean_def split: if_splits)
  then show ?thesis by (rule AList.update_triv)
qed

lemma updateCode_object_same:
  "stateObject (fst (updateCode_object (code_value (stateObject this)) this)) = stateObject this"
proof (cases "stored_boolean (stateObject this) ''code''")
  case None
  have k: "''code'' \<in> set overwritable_keys" by (simp add: overwritable_keys_def)
  from stored_boolean_None_delete [OF None k] None show ?thesis
    by (simp add: updateCode_object_def code_value_def Let_def)
next
  case (Some v)
  from stored_boolean_Some_update [OF Some] Some show ?thesis
    by (simp add: updateCode_object_def code_value_def Let_def)
qed

lemma presetsUpdatedSetStateCallback_stateObject:
  "stateObject (fst (presetsUpdatedSetStateCallback this)) = stateObject this"
proof -
  obtain this1 calls1 where c: "checkForUnloadedPlugins_object this = (this1, calls1)"
    by (cases "checkForUnloadedPlugins_object this")
  from stateObject_checkForUnloadedPlugins_object [of this] c
  have s1: "stateObject this1 = stateObject this" by simp
  obtain this2 calls2 where
    u: "updateCode_object (code_value (stateObject this1)) this1 = (this2, calls2)"
    by (cases "updateCode_object (code_value (stateObject this1)) this1")
  from updateCode_object_same [of this1] u have "stateObject this2 = stateObject this1" by simp
  with s1 c u show ?thesis by (simp add: presetsUpdatedSetStateCallback_def)
qed

lemma presetsUpdatedSetStateCallback_calls:
  "snd (presetsUpdatedSetStateCallback this)
     = snd (checkForUnloadedPlugins_object this)
       @ [case code_value (stateObject this) of
            Inl v \<Rightarrow> CompileToState_Boolean v
          | Inr c \<Rightarrow> OfType (CompileToState c)]"
proof -
  obtain this1 calls1 where c: "checkForUnloadedPlugins_object this = (this1, calls1)"
    by (cases "checkForUnloadedPlugins_object this")
  from stateObject_checkForUnloadedPlugins_object [of this] c
  have s1: "stateObject this1 = stateObject this" by simp
  show ?thesis
    by (simp add: presetsUpdatedSetStateCallback_def c s1 updateCode_object_def Let_def
             split: sum.splits)
qed

lemma checkForUnloadedPlugins_object_typed:
  assumes "overwritten (stateObject this) = []" and "envConfig_stored (stateObject this) = []"
  shows "checkForUnloadedPlugins_object this
           = (this\<lparr>o_numLoadingPlugins :=
                      numLoadingPlugins
                        (fst (checkForUnloadedPlugins
                                \<lparr> state = declared (stateObject this),
                                  numLoadingPlugins = o_numLoadingPlugins this \<rparr>))\<rparr>,
              map OfType
                (snd (checkForUnloadedPlugins
                        \<lparr> state = declared (stateObject this),
                          numLoadingPlugins = o_numLoadingPlugins this \<rparr>)))"
proof -
  obtain n loads where
    f: "forIn_plugins (plugins (declared (stateObject this))) (o_numLoadingPlugins this)
          = (n, loads)"
    by (cases "forIn_plugins (plugins (declared (stateObject this))) (o_numLoadingPlugins this)")
  from assms show ?thesis
    by (simp add: checkForUnloadedPlugins_object_def checkForUnloadedPlugins_def Let_def f
                  stored_boolean_def envConfig_property_def EnvConfig_property_def)
qed


lemma onSettingChange_Some:
  assumes "onSettingChange_updater name b (stateObject this) = Inr (Some partial)"
    and "setState_PartialState (stateObject this) partial = X"
  shows "\<exists>this' calls.
           onSettingChange name b this = Inr (this', calls)
         \<and> (this', calls) = presetsUpdatedSetStateCallback (this\<lparr>stateObject := X\<rparr>)
         \<and> stateObject this' = X"
proof -
  obtain this' calls where
    c: "presetsUpdatedSetStateCallback (this\<lparr>stateObject := X\<rparr>) = (this', calls)"
    by (cases "presetsUpdatedSetStateCallback (this\<lparr>stateObject := X\<rparr>)")
  from presetsUpdatedSetStateCallback_stateObject [of "this\<lparr>stateObject := X\<rparr>"] c
  have "stateObject this' = X" by simp
  moreover from assms c have "onSettingChange name b this = Inr (this', calls)"
    by (simp add: onSettingChange_def)
  ultimately show ?thesis using c by simp
qed


text \<open>
  After the updater of \<open>_onEnvPresetSettingChange(name, value)\<close> the property \<open>name\<close>
  of \<open>state.envConfig\<close> reads as \<open>value\<close>, and every other property reads as before.
\<close>

lemma envConfig_overwritable: "''envConfig'' \<in> set overwritable_keys"
  by (simp add: overwritable_keys_def)

lemma EnvConfig_property_update:
  "EnvConfig_property (ec\<lparr>browsers := s\<rparr>) key
     = (if key = ''browsers'' then JsString s else EnvConfig_property ec key)"
  "EnvConfig_property (ec\<lparr>electron := n\<rparr>) key
     = (if key = ''electron'' then nullable_number n else EnvConfig_property ec key)"
  "EnvConfig_property (ec\<lparr>isEnvPresetEnabled := b\<rparr>) key
     = (if key = ''isEnvPresetEnabled'' then JsBoolean b else EnvConfig_property ec key)"
  "EnvConfig_property (ec\<lparr>isElectronEnabled := b\<rparr>) key
     = (if key = ''isElectronEnabled'' then JsBoolean b else EnvConfig_property ec key)"
  "EnvConfig_property (ec\<lparr>isNodeEnabled := b\<rparr>) key
     = (if key = ''isNodeEnabled'' then JsBoolean b else EnvConfig_property ec key)"
  "EnvConfig_property (ec\<lparr>node := n\<rparr>) key
     = (if key = ''node'' then nullable_number n else EnvConfig_property ec key)"
  by (simp_all add: EnvConfig_property_def)

lemma EnvConfig_with_property:
  assumes "EnvConfig_with ec name v = Some ec'"
  shows "EnvConfig_property ec' key = (if key = name then v else EnvConfig_property ec key)"
proof (cases v)
  case JsUndefined
  with assms show ?thesis by (auto simp: EnvConfig_with_def split: if_splits)
next
  case JsNull
  with assms show ?thesis
    by (auto simp: EnvConfig_with_def EnvConfig_property_update nullable_number_def
             split: if_splits)
next
  case (JsBoolean b)
  with assms show ?thesis
    by (auto simp: EnvConfig_with_def EnvConfig_property_update split: if_splits)
next
  case (JsNumber r)
  with assms show ?thesis
    by (auto simp: EnvConfig_with_def EnvConfig_property_update nullable_number_def
             split: if_splits)
next
  case (JsString s)
  with assms show ?thesis
    by (auto simp: EnvConfig_with_def EnvConfig_property_update split: if_splits)
next
  case JsObject
  with assms show ?thesis by (auto simp: EnvConfig_with_def split: if_splits)
qed

lemma envConfig_property_onEnvPresetSettingChange_updater:
  "envConfig_property (onEnvPresetSettingChange_updater name v obj) key
     = (if key = name then v else envConfig_property obj key)"
proof -
  define obj1 where
    "obj1 = (case stored_boolean obj ''envConfig'' of
               Some b \<Rightarrow>
                 obj\<lparr>overwritten := AList.delete ''envConfig'' (overwritten obj),
                     envConfig_stored := map (\<lambda>key. (key, JsUndefined)) EnvConfig_keys\<rparr>
             | None \<Rightarrow> obj)"
  have u: "map_of (map (\<lambda>key. (key, JsUndefined)) EnvConfig_keys) key
             = (if key \<in> set EnvConfig_keys then Some JsUndefined else None)"
    by (simp add: map_of_map_restrict restrict_map_def)
  have e: "key \<notin> set EnvConfig_keys \<Longrightarrow> EnvConfig_property ec key = JsUndefined" for ec
    by (simp add: EnvConfig_keys_def EnvConfig_property_def)
  have s1: "stored_boolean obj1 ''envConfig'' = None"
    by (cases "stored_boolean obj ''envConfig''")
       (simp_all add: obj1_def stored_boolean_def envConfig_overwritable AList.delete_conv')
  then have m1: "map_of (overwritten obj1) ''envConfig'' = None"
    by (simp add: stored_boolean_def envConfig_overwritable)
  have p1: "envConfig_property obj1 key = envConfig_property obj key"
  proof (cases "stored_boolean obj ''envConfig''")
    case None
    then show ?thesis by (simp add: obj1_def)
  next
    case (Some b)
    then have "envConfig_property obj key = JsUndefined"
      by (simp add: envConfig_property_def)
    moreover from Some have "envConfig_property obj1 key = JsUndefined"
      using e [of "envConfig (declared obj)"]
      by (simp add: envConfig_property_def obj1_def stored_boolean_def envConfig_overwritable AList.delete_conv' u)
    ultimately show ?thesis by simp
  qed
  have r: "envConfig_property obj1 key
             = (case map_of (envConfig_stored obj1) key of
                  Some w \<Rightarrow> w
                | None \<Rightarrow> EnvConfig_property (envConfig (declared obj1)) key)"
    by (simp add: envConfig_property_def s1)
  have "envConfig_property (onEnvPresetSettingChange_updater name v obj) key
          = (if key = name then v else envConfig_property obj1 key)"
  proof (cases "EnvConfig_with (envConfig (declared obj1)) name v")
    case None
    then have "onEnvPresetSettingChange_updater name v obj
                 = obj1\<lparr>envConfig_stored := AList.update name v (envConfig_stored obj1)\<rparr>"
      by (simp add: onEnvPresetSettingChange_updater_def obj1_def [symmetric] Let_def)
    then show ?thesis
      by (simp add: r envConfig_property_def stored_boolean_def envConfig_overwritable m1 AList.update_conv'
               cong: option.case_cong)
  next
    case (Some ec)
    then have "onEnvPresetSettingChange_updater name v obj
                 = obj1\<lparr>declared := (declared obj1)\<lparr>envConfig := ec\<rparr>,
                        envConfig_stored := AList.delete name (envConfig_stored obj1)\<rparr>"
      by (simp add: onEnvPresetSettingChange_updater_def obj1_def [symmetric] Let_def)
    then show ?thesis
      by (simp add: r envConfig_property_def stored_boolean_def envConfig_overwritable m1 AList.delete_conv'
                    EnvConfig_with_property [OF Some] cong: option.case_cong)
  qed
  with p1 show ?thesis by simp
qed

subsection \<open>The persisted configuration\<close>

text \<open>
  Claim C5. In the object that \<open>_persistState\<close> writes, the field \<open>presets\<close> is the
  comma-joined list of the labels of the presets that are enabled and loaded, followed by
  \<open>babili\<close> when the plugin babili-standalone is enabled (loaded or not) and by \<open>env\<close>
  when the env preset is enabled in \<open>envConfig\<close> (loaded or not).
\<close>

theorem persisted_presets:
  assumes "persistState X this = Inr calls"
  shows "\<exists>babili st.
           map_of (plugins (state this)) ''babili-standalone'' = Some babili
         \<and> calls = [StorageSet ''replState'' st, UpdateQuery st]
         \<and> p_presets st =
             join_comma
               (map (\<lambda>kv. label (config (snd kv)))
                  (filter (\<lambda>kv. isEnabled (snd kv) \<and> isLoaded (snd kv)) (presets (state this)))
                @ (if isEnabled babili then [''babili''] else [])
                @ (if isEnvPresetEnabled (envConfig (state this)) then [''env''] else []))"
  using persistState_Inr [OF assms] by blast

theorem persisted_presets_witness:
  "persistState example_Imports example_Repl
     = Inr [StorageSet ''replState'' example_persisted, UpdateQuery example_persisted]
   \<and> (\<exists>babili st.
         map_of (plugins (state example_Repl)) ''babili-standalone'' = Some babili
       \<and> [StorageSet ''replState'' example_persisted, UpdateQuery example_persisted]
           = [StorageSet ''replState'' st, UpdateQuery st]
       \<and> \<not> isLoaded babili
       \<and> p_presets st = ''es2015,stage-2,babili,env'')"
proof -
  from persisted_presets [OF example_persistState]
  obtain babili st where
    b: "map_of (plugins (state example_Repl)) ''babili-standalone'' = Some babili"
    and c: "[StorageSet ''replState'' example_persisted, UpdateQuery example_persisted]
           = [StorageSet ''replState'' st, UpdateQuery st]"
    and p: "p_presets st =
             join_comma
               (map (\<lambda>kv. label (config (snd kv)))
                  (filter (\<lambda>kv. isEnabled (snd kv) \<and> isLoaded (snd kv))
                     (presets (state example_Repl)))
                @ (if isEnabled babili then [''babili''] else [])
                @ (if isEnvPresetEnabled (envConfig (state example_Repl)) then [''env'']
                   else []))"
    by blast
  from b have b': "babili = example_plugin ''babili'' True False False"
    by (simp add: example_Repl_def example_State_def)
  have "p_presets st = ''es2015,stage-2,babili,env''"
    unfolding p b' by (simp add: example_Repl_def example_State_def example_plugin_def)
  moreover have "\<not> isLoaded babili" by (simp add: b' example_plugin_def)
  ultimately show ?thesis using example_persistState b c by blast
qed

subsection \<open>Loading plugins and the runtime polyfill\<close>

text \<open>
  Claim C1. In one run of \<open>_checkForUnloadedPlugins\<close>, \<open>loadPlugin\<close> is called for an
  entry of \<open>state.plugins\<close> exactly when that plugin is enabled, not loaded and not
  loading: the loads started for plugins are those of the entries that qualify, one each
  and in the order of the entries, and an entry that is disabled, loaded or loading is not
  among them.
\<close>

theorem plugin_loads_started:
  "filter isPluginLoad (snd (checkForUnloadedPlugins this))
     = map (\<lambda>kv. LoadPlugin (snd kv) PluginLoadCallback)
         (filter (\<lambda>kv. isEnabled (snd kv) \<and> \<not> isLoaded (snd kv) \<and> \<not> isLoading (snd kv))
            (plugins (state this)))
   \<and> (\<forall>kv \<in> set (plugins (state this)).
         (LoadPlugin (snd kv) PluginLoadCallback \<in> set (snd (checkForUnloadedPlugins this)))
         = (isEnabled (snd kv) \<and> \<not> isLoaded (snd kv) \<and> \<not> isLoading (snd kv)))"
proof -
  have "(LoadPlugin (snd kv) PluginLoadCallback \<in> set (snd (checkForUnloadedPlugins this)))
         = (isEnabled (snd kv) \<and> \<not> isLoaded (snd kv) \<and> \<not> isLoading (snd kv))"
    if "kv \<in> set (plugins (state this))" for kv
    using that by (auto simp: checkForUnloadedPlugins_calls)
  then show ?thesis
    using filter_isPluginLoad_calls [of this] by blast
qed

theorem plugin_loads_started_witness:
  "filter isPluginLoad (snd (checkForUnloadedPlugins example_four_plugins))
     = [LoadPlugin (example_plugin ''babili'' True False False) PluginLoadCallback]
   \<and> LoadPlugin (example_plugin ''babili'' True False False) PluginLoadCallback
        \<in> set (snd (checkForUnloadedPlugins example_four_plugins))
   \<and> LoadPlugin (example_plugin ''prettier'' False False False) PluginLoadCallback
        \<notin> set (snd (checkForUnloadedPlugins example_four_plugins))
   \<and> LoadPlugin (example_plugin ''loaded'' True True False) PluginLoadCallback
        \<notin> set (snd (checkForUnloadedPlugins example_four_plugins))
   \<and> LoadPlugin (example_plugin ''loading'' True False True) PluginLoadCallback
        \<notin> set (snd (checkForUnloadedPlugins example_four_plugins))"
  using plugin_loads_started [of example_four_plugins]
  by (simp add: example_four_plugins_def example_Repl_def example_State_def
                example_plugin_def)

text \<open>
  Claim C3. \<open>_compile\<close> calls \<open>compile\<close> with \<open>evaluate\<close> true exactly when the
  runtime polyfill is enabled and loaded. \<open>_checkForUnloadedPlugins\<close> asks for the load
  of the runtime polyfill exactly when it is enabled and not loaded. The callback of that
  load evaluates the compiled code that the state holds, if there is any, and calls
  neither \<open>compile\<close> nor \<open>_compileToState\<close>; it leaves \<open>compiled\<close> as it is.
\<close>

theorem evaluate_gated_by_runtime_polyfill:
  "(Repl_compile X c st = Inr (r, calls) \<longrightarrow>
      (\<exists>cfg. calls = [Compile c cfg]
           \<and> cfg_evaluate cfg
               = (isEnabled (runtimePolyfillState st) \<and> isLoaded (runtimePolyfillState st))))
   \<and> ((LoadPlugin p RuntimePolyfillLoadCallback \<in> set (snd (checkForUnloadedPlugins this)))
        = (p = runtimePolyfillState (state this) \<and> isEnabled p \<and> \<not> isLoaded p))
   \<and> (\<exists>this' calls'.
          runtimePolyfillLoadCallback X this = Inr (this', calls')
        \<and> compiled (state this') = compiled (state this)
        \<and> (\<forall>out. compiled (state this) = Some out \<and> out \<noteq> [] \<longrightarrow>
              calls' = [ScopedEval out (sourceMap (state this))])
        \<and> (compiled (state this) = None \<or> compiled (state this) = Some [] \<longrightarrow> calls' = []))"
proof -
  have 1: "Repl_compile X c st = Inr (r, calls) \<longrightarrow>
      (\<exists>cfg. calls = [Compile c cfg]
           \<and> cfg_evaluate cfg
               = (isEnabled (runtimePolyfillState st) \<and> isLoaded (runtimePolyfillState st)))"
    using Repl_compile_Inr [of X c st r calls] by blast
  have 2: "(LoadPlugin p RuntimePolyfillLoadCallback \<in> set (snd (checkForUnloadedPlugins this)))
        = (p = runtimePolyfillState (state this) \<and> isEnabled p \<and> \<not> isLoaded p)"
    by (auto simp: checkForUnloadedPlugins_calls)
  have 3: "\<exists>this' calls'.
          runtimePolyfillLoadCallback X this = Inr (this', calls')
        \<and> compiled (state this') = compiled (state this)
        \<and> (\<forall>out. compiled (state this) = Some out \<and> out \<noteq> [] \<longrightarrow>
              calls' = [ScopedEval out (sourceMap (state this))])
        \<and> (compiled (state this) = None \<or> compiled (state this) = Some [] \<longrightarrow> calls' = [])"
  proof (cases "compiled (state this) = None \<or> compiled (state this) = Some []")
    case True
    from runtimePolyfillLoadCallback_early [OF True, of X] True show ?thesis by auto
  next
    case False
    then obtain out where out: "compiled (state this) = Some out" "out \<noteq> []" by auto
    from runtimePolyfillLoadCallback_eval [OF out, of X] out show ?thesis by simp
  qed
  from 1 2 3 show ?thesis by blast
qed

theorem evaluate_gated_by_runtime_polyfill_witness:
  "(\<exists>r cfg. Repl_compile example_Imports ''x'' (state example_Repl) = Inr (r, [Compile ''x'' cfg])
          \<and> \<not> cfg_evaluate cfg)
   \<and> LoadPlugin (runtimePolyfillState (state example_Repl)) RuntimePolyfillLoadCallback
        \<in> set (snd (checkForUnloadedPlugins example_Repl))
   \<and> (\<exists>this'. runtimePolyfillLoadCallback example_Imports example_Repl
                 = Inr (this', [ScopedEval ''y'' None])
              \<and> compiled (state this') = Some ''y'')"
proof -
  have b: "map_of (plugins (state example_Repl)) ''babili-standalone''
             = Some (example_plugin ''babili'' True False False)"
    and p: "map_of (plugins (state example_Repl)) ''prettier''
             = Some (example_plugin ''prettier'' False False False)"
    by (simp_all add: example_Repl_def example_State_def)
  from Repl_compile_total [OF b p, of example_Imports "''x''"]
  obtain r calls where rc: "Repl_compile example_Imports ''x'' (state example_Repl) = Inr (r, calls)"
    by blast
  note inst = evaluate_gated_by_runtime_polyfill
    [of example_Imports "''x''" "state example_Repl" r calls
        "runtimePolyfillState (state example_Repl)" example_Repl]
  from inst rc obtain cfg where cfg: "calls = [Compile ''x'' cfg]"
    "cfg_evaluate cfg = (isEnabled (runtimePolyfillState (state example_Repl))
                         \<and> isLoaded (runtimePolyfillState (state example_Repl)))"
    by blast
  have 1: "\<exists>r cfg. Repl_compile example_Imports ''x'' (state example_Repl)
                     = Inr (r, [Compile ''x'' cfg]) \<and> \<not> cfg_evaluate cfg"
    using rc cfg by (auto simp: example_Repl_def example_State_def example_plugin_def)
  have 2: "LoadPlugin (runtimePolyfillState (state example_Repl)) RuntimePolyfillLoadCallback
        \<in> set (snd (checkForUnloadedPlugins example_Repl))"
    using inst by (simp add: example_Repl_def example_State_def example_plugin_def)
  from inst obtain this' calls' where
    cb: "runtimePolyfillLoadCallback example_Imports example_Repl = Inr (this', calls')"
    and k: "compiled (state this') = compiled (state example_Repl)"
    and e: "\<forall>out. compiled (state example_Repl) = Some out \<and> out \<noteq> [] \<longrightarrow>
              calls' = [ScopedEval out (sourceMap (state example_Repl))]"
    by blast
  have c: "compiled (state example_Repl) = Some ''y''" "sourceMap (state example_Repl) = None"
    by (simp_all add: example_Repl_def example_State_def)
  from e c have "calls' = [ScopedEval ''y'' None]" by simp
  with cb k c have 3: "\<exists>this'. runtimePolyfillLoadCallback example_Imports example_Repl
                 = Inr (this', [ScopedEval ''y'' None])
              \<and> compiled (state this') = Some ''y''" by simp
  from 1 2 3 show ?thesis by blast
qed

text \<open>
  Claim C7. The callback of the runtime polyfill load returns without evaluating when
  \<open>state.compiled\<close> is \<open>null\<close> (or empty); \<open>scopedEval\<close> is called only on compiled
  code that the state holds. What \<open>scopedEval\<close> throws becomes \<open>state.evalError\<close>, a
  run that throws nothing sets \<open>evalError\<close> to \<open>null\<close>, and in no case does the callback
  itself throw.
\<close>

theorem runtime_polyfill_callback_catches:
  "\<exists>this' calls.
     runtimePolyfillLoadCallback X this = Inr (this', calls)
   \<and> (compiled (state this) = None \<longrightarrow> this' = this \<and> calls = [])
   \<and> (\<forall>out m. ScopedEval out m \<in> set calls \<longrightarrow>
         compiled (state this) = Some out \<and> m = sourceMap (state this))
   \<and> (\<forall>out error. compiled (state this) = Some out \<and> out \<noteq> []
          \<and> scopedEval X out (sourceMap (state this)) = Inl error \<longrightarrow>
         evalError (state this') = Some error
       \<and> calls = [ScopedEval out (sourceMap (state this))])
   \<and> (\<forall>out. compiled (state this) = Some out \<and> out \<noteq> []
          \<and> scopedEval X out (sourceMap (state this)) = Inr () \<longrightarrow>
         evalError (state this') = None
       \<and> calls = [ScopedEval out (sourceMap (state this))])"
proof (cases "compiled (state this) = None \<or> compiled (state this) = Some []")
  case True
  from runtimePolyfillLoadCallback_early [OF True, of X] True show ?thesis by auto
next
  case False
  then obtain out where out: "compiled (state this) = Some out" "out \<noteq> []" by auto
  from runtimePolyfillLoadCallback_eval [OF out, of X] out show ?thesis by simp
qed

theorem runtime_polyfill_callback_catches_witness:
  "(\<exists>this'. runtimePolyfillLoadCallback example_Imports
               (example_Repl\<lparr>state := example_State\<lparr>compiled := Some ''throw''\<rparr>\<rparr>)
             = Inr (this', [ScopedEval ''throw'' None])
           \<and> evalError (state this') = Some (ThrownError ''thrown''))
   \<and> (\<exists>this'. runtimePolyfillLoadCallback example_Imports example_Repl
             = Inr (this', [ScopedEval ''y'' None])
           \<and> evalError (state this') = None)
   \<and> runtimePolyfillLoadCallback example_Imports
        (example_Repl\<lparr>state := example_State\<lparr>compiled := None\<rparr>\<rparr>)
      = Inr (example_Repl\<lparr>state := example_State\<lparr>compiled := None\<rparr>\<rparr>, [])"
proof -
  have 1: "\<exists>this'. runtimePolyfillLoadCallback example_Imports
               (example_Repl\<lparr>state := example_State\<lparr>compiled := Some ''throw''\<rparr>\<rparr>)
             = Inr (this', [ScopedEval ''throw'' None])
           \<and> evalError (state this') = Some (ThrownError ''thrown'')"
    using runtime_polyfill_callback_catches
      [of example_Imports "example_Repl\<lparr>state := example_State\<lparr>compiled := Some ''throw''\<rparr>\<rparr>"]
    by (simp add: example_Repl_def example_State_def example_Imports_def)
  have 2: "\<exists>this'. runtimePolyfillLoadCallback example_Imports example_Repl
             = Inr (this', [ScopedEval ''y'' None])
           \<and> evalError (state this') = None"
    using runtime_polyfill_callback_catches [of example_Imports example_Repl]
    by (simp add: example_Repl_def example_State_def example_Imports_def)
  have 3: "runtimePolyfillLoadCallback example_Imports
        (example_Repl\<lparr>state := example_State\<lparr>compiled := None\<rparr>\<rparr>)
      = Inr (example_Repl\<lparr>state := example_State\<lparr>compiled := None\<rparr>\<rparr>, [])"
    using runtime_polyfill_callback_catches
      [of example_Imports "example_Repl\<lparr>state := example_State\<lparr>compiled := None\<rparr>\<rparr>"]
    by (simp add: example_Repl_def example_State_def example_Imports_def)
  from 1 2 3 show ?thesis by blast
qed

subsection \<open>Compilation\<close>

text \<open>
  Claim C6. The \<open>envPresetDebugInfo\<close> that \<open>_compile\<close> returns is not \<open>null\<close>
  only when \<open>debugEnvPreset\<close> is true and the env preset is enabled and loaded, and then
  it is \<open>getDebugInfoFromEnvResult\<close> of the build result of the preset; when
  \<open>debugEnvPreset\<close> is false it is \<open>null\<close>. In the other direction: when
  \<open>debugEnvPreset\<close> is true and the env preset is enabled and loaded, the preset is
  among those given to \<open>compile\<close>, and the debug info returned is
  \<open>getDebugInfoFromEnvResult\<close> of the build result that \<open>compile\<close> reports (of the
  last one, and \<open>null\<close> only when it reports none). The output panel that \<open>render\<close>
  returns gets the debug info of the state when \<open>debugEnvPreset\<close> is true, and \<open>null\<close>
  otherwise.
\<close>

theorem env_preset_debug_info:
  "(Repl_compile X c st = Inr (r, calls) \<longrightarrow>
      (r_envPresetDebugInfo r \<noteq> None \<longrightarrow>
         debugEnvPreset st \<and> isEnvPresetEnabled (envConfig st) \<and> isLoaded (envPresetState st)
       \<and> (\<exists>cfg. calls = [Compile c cfg] \<and> snd (compile X c cfg) \<noteq> []
              \<and> r_envPresetDebugInfo r
                  = getDebugInfoFromEnvResult X (last (snd (compile X c cfg)))))
    \<and> (\<not> debugEnvPreset st \<longrightarrow> r_envPresetDebugInfo r = None)
    \<and> (debugEnvPreset st \<and> isEnvPresetEnabled (envConfig st) \<and> isLoaded (envPresetState st)
         \<longrightarrow>
         (\<exists>cfg. calls = [Compile c cfg]
              \<and> (\<exists>opts. PresetWithOptions ''env'' opts \<in> set (cfg_presets cfg))
              \<and> r_envPresetDebugInfo r
                  = (if snd (compile X c cfg) = [] then None
                     else getDebugInfoFromEnvResult X (last (snd (compile X c cfg)))))))
   \<and> (render this = ReplView sidebar editor panel \<longrightarrow>
        m_info panel
          = (if debugEnvPreset (state this) then envPresetDebugInfo (state this) else None))"
proof -
  have 1: "(r_envPresetDebugInfo r \<noteq> None \<longrightarrow>
         debugEnvPreset st \<and> isEnvPresetEnabled (envConfig st) \<and> isLoaded (envPresetState st)
       \<and> (\<exists>cfg. calls = [Compile c cfg] \<and> snd (compile X c cfg) \<noteq> []
              \<and> r_envPresetDebugInfo r
                  = getDebugInfoFromEnvResult X (last (snd (compile X c cfg)))))
    \<and> (\<not> debugEnvPreset st \<longrightarrow> r_envPresetDebugInfo r = None)
    \<and> (debugEnvPreset st \<and> isEnvPresetEnabled (envConfig st) \<and> isLoaded (envPresetState st)
         \<longrightarrow>
         (\<exists>cfg. calls = [Compile c cfg]
              \<and> (\<exists>opts. PresetWithOptions ''env'' opts \<in> set (cfg_presets cfg))
              \<and> r_envPresetDebugInfo r
                  = (if snd (compile X c cfg) = [] then None
                     else getDebugInfoFromEnvResult X (last (snd (compile X c cfg))))))"
    if rc: "Repl_compile X c st = Inr (r, calls)"
  proof -
    from Repl_compile_Inr [OF rc] obtain cfg where
      c: "calls = [Compile c cfg]"
      and e: "isEnvPresetEnabled (envConfig st) \<and> isLoaded (envPresetState st) \<longrightarrow>
               (\<exists>opts. PresetWithOptions ''env'' opts \<in> set (cfg_presets cfg))"
      and i: "r_envPresetDebugInfo r
             = (if debugEnvPreset st \<and> isEnvPresetEnabled (envConfig st)
                   \<and> isLoaded (envPresetState st) \<and> snd (compile X c cfg) \<noteq> []
                then getDebugInfoFromEnvResult X (last (snd (compile X c cfg))) else None)"
      by blast
    have a: "r_envPresetDebugInfo r \<noteq> None \<longrightarrow>
         debugEnvPreset st \<and> isEnvPresetEnabled (envConfig st) \<and> isLoaded (envPresetState st)
       \<and> (\<exists>cfg. calls = [Compile c cfg] \<and> snd (compile X c cfg) \<noteq> []
              \<and> r_envPresetDebugInfo r
                  = getDebugInfoFromEnvResult X (last (snd (compile X c cfg))))"
    proof (cases "debugEnvPreset st \<and> isEnvPresetEnabled (envConfig st)
                   \<and> isLoaded (envPresetState st) \<and> snd (compile X c cfg) \<noteq> []")
      case True
      with i have "r_envPresetDebugInfo r
                     = getDebugInfoFromEnvResult X (last (snd (compile X c cfg)))" by simp
      with True c show ?thesis by blast
    next
      case False
      with i have "r_envPresetDebugInfo r = None" by simp
      then show ?thesis by simp
    qed
    have b: "\<not> debugEnvPreset st \<longrightarrow> r_envPresetDebugInfo r = None"
      using i by simp
    have d: "debugEnvPreset st \<and> isEnvPresetEnabled (envConfig st) \<and> isLoaded (envPresetState st)
         \<longrightarrow>
         (\<exists>cfg. calls = [Compile c cfg]
              \<and> (\<exists>opts. PresetWithOptions ''env'' opts \<in> set (cfg_presets cfg))
              \<and> r_envPresetDebugInfo r
                  = (if snd (compile X c cfg) = [] then None
                     else getDebugInfoFromEnvResult X (last (snd (compile X c cfg)))))"
    proof
      assume h: "debugEnvPreset st \<and> isEnvPresetEnabled (envConfig st)
                 \<and> isLoaded (envPresetState st)"
      with i have "r_envPresetDebugInfo r
                  = (if snd (compile X c cfg) = [] then None
                     else getDebugInfoFromEnvResult X (last (snd (compile X c cfg))))" by simp
      moreover from h e have "\<exists>opts. PresetWithOptions ''env'' opts \<in> set (cfg_presets cfg)"
        by blast
      ultimately show "\<exists>cfg. calls = [Compile c cfg]
              \<and> (\<exists>opts. PresetWithOptions ''env'' opts \<in> set (cfg_presets cfg))
              \<and> r_envPresetDebugInfo r
                  = (if snd (compile X c cfg) = [] then None
                     else getDebugInfoFromEnvResult X (last (snd (compile X c cfg))))"
        using c by blast
    qed
    from a b d show ?thesis by blast
  qed
  have 2: "m_info panel
          = (if debugEnvPreset (state this) then envPresetDebugInfo (state this) else None)"
    if "render this = ReplView sidebar editor panel"
    using that by (auto simp: render_def Let_def split: if_splits)
  from 1 2 show ?thesis by blast
qed

theorem env_preset_debug_info_witness:
  "(\<exists>r calls. Repl_compile example_Imports ''x'' example_State = Inr (r, calls)
            \<and> r_envPresetDebugInfo r = Some ''built'')
   \<and> (\<exists>r calls. Repl_compile example_Imports ''x'' (example_State\<lparr>debugEnvPreset := False\<rparr>)
                  = Inr (r, calls)
            \<and> r_envPresetDebugInfo r = None)
   \<and> (\<exists>sidebar editor panel.
         render (example_Repl\<lparr>state := example_State\<lparr>envPresetDebugInfo := Some ''built''\<rparr>\<rparr>)
           = ReplView sidebar editor panel
       \<and> m_info panel = Some ''built'')"
proof -
  have b: "map_of (plugins example_State) ''babili-standalone''
             = Some (example_plugin ''babili'' True False False)"
    and p: "map_of (plugins example_State) ''prettier''
             = Some (example_plugin ''prettier'' False False False)"
    by (simp_all add: example_State_def)
  from Repl_compile_total [OF b p, of example_Imports "''x''"]
  obtain r1 calls1 where e1: "Repl_compile example_Imports ''x'' example_State = Inr (r1, calls1)"
    by blast
  have on: "debugEnvPreset example_State \<and> isEnvPresetEnabled (envConfig example_State)
            \<and> isLoaded (envPresetState example_State)"
    by (simp add: example_State_def example_plugin_def)
  from env_preset_debug_info
         [of example_Imports "''x''" example_State r1 calls1,
          THEN conjunct1, rule_format, OF e1, THEN conjunct2, THEN conjunct2, rule_format, OF on]
  obtain cfg where
    "r_envPresetDebugInfo r1
       = (if snd (compile example_Imports ''x'' cfg) = [] then None
          else getDebugInfoFromEnvResult example_Imports
                 (last (snd (compile example_Imports ''x'' cfg))))"
    by blast
  then have i1: "r_envPresetDebugInfo r1 = Some ''built''"
    by (simp add: example_Imports_def)
  have b2: "map_of (plugins (example_State\<lparr>debugEnvPreset := False\<rparr>)) ''babili-standalone''
             = Some (example_plugin ''babili'' True False False)"
    and p2: "map_of (plugins (example_State\<lparr>debugEnvPreset := False\<rparr>)) ''prettier''
             = Some (example_plugin ''prettier'' False False False)"
    by (simp_all add: example_State_def)
  from Repl_compile_total [OF b2 p2, of example_Imports "''x''"]
  obtain r2 calls2 where
    e2: "Repl_compile example_Imports ''x'' (example_State\<lparr>debugEnvPreset := False\<rparr>)
           = Inr (r2, calls2)"
    by blast
  have off: "\<not> debugEnvPreset (example_State\<lparr>debugEnvPreset := False\<rparr>)" by simp
  from env_preset_debug_info
         [of example_Imports "''x''" "example_State\<lparr>debugEnvPreset := False\<rparr>" r2 calls2,
          THEN conjunct1, rule_format, OF e2, THEN conjunct2, THEN conjunct1, rule_format, OF off]
  have i2: "r_envPresetDebugInfo r2 = None" .
  obtain sidebar editor panel where
    v: "render (example_Repl\<lparr>state := example_State\<lparr>envPresetDebugInfo := Some ''built''\<rparr>\<rparr>)
           = ReplView sidebar editor panel"
    by (simp add: render_def Let_def example_Repl_def example_State_def)
  from env_preset_debug_info
         [of example_Imports "''x''" example_State r1 calls1
             "example_Repl\<lparr>state := example_State\<lparr>envPresetDebugInfo := Some ''built''\<rparr>\<rparr>"
             sidebar editor panel,
          THEN conjunct2, rule_format, OF v]
  have 3: "m_info panel = Some ''built''"
    by (simp add: example_State_def)
  from e1 i1 e2 i2 v 3 show ?thesis by blast
qed

text \<open>
  Claim C9. In the options that \<open>_compile\<close> gives the env preset, \<open>useBuiltIns\<close> equals
  \<open>state.builtIns\<close>: the state has no property \<open>evaluate\<close>, so \<open>!state.evaluate\<close> is
  true, also when the runtime polyfill (the evaluate setting) is enabled.
\<close>

theorem useBuiltIns_is_builtIns:
  "\<not> truthy (getProperty st ''evaluate'')
   \<and> (Repl_compile X c st = Inr (r, calls) \<longrightarrow>
        (\<exists>cfg. calls = [Compile c cfg]
             \<and> (\<forall>n opts. PresetWithOptions n opts \<in> set (cfg_presets cfg) \<longrightarrow>
                   useBuiltIns opts = builtIns st)
             \<and> (isEnvPresetEnabled (envConfig st) \<and> isLoaded (envPresetState st) \<longrightarrow>
                   (\<exists>opts. PresetWithOptions ''env'' opts \<in> set (cfg_presets cfg)))))"
proof -
  have "\<not> truthy (getProperty st ''evaluate'')"
    by (simp add: getProperty_def)
  moreover have "\<exists>cfg. calls = [Compile c cfg]
             \<and> (\<forall>n opts. PresetWithOptions n opts \<in> set (cfg_presets cfg) \<longrightarrow>
                   useBuiltIns opts = builtIns st)
             \<and> (isEnvPresetEnabled (envConfig st) \<and> isLoaded (envPresetState st) \<longrightarrow>
                   (\<exists>opts. PresetWithOptions ''env'' opts \<in> set (cfg_presets cfg)))"
    if rc: "Repl_compile X c st = Inr (r, calls)"
    using Repl_compile_Inr [OF rc] by blast
  ultimately show ?thesis by blast
qed

theorem useBuiltIns_is_builtIns_witness:
  "\<exists>r cfg opts.
     Repl_compile example_Imports ''x'' example_evaluating = Inr (r, [Compile ''x'' cfg])
   \<and> isEnabled (runtimePolyfillState example_evaluating)
   \<and> cfg_evaluate cfg
   \<and> PresetWithOptions ''env'' opts \<in> set (cfg_presets cfg)
   \<and> useBuiltIns opts"
proof -
  have b: "map_of (plugins example_evaluating) ''babili-standalone''
             = Some (example_plugin ''babili'' True False False)"
    and p: "map_of (plugins example_evaluating) ''prettier''
             = Some (example_plugin ''prettier'' False False False)"
    by (simp_all add: example_evaluating_def example_State_def)
  from Repl_compile_total [OF b p, of example_Imports "''x''"]
  obtain r calls where rc: "Repl_compile example_Imports ''x'' example_evaluating = Inr (r, calls)"
    by blast
  from useBuiltIns_is_builtIns [of example_evaluating example_Imports "''x''" r calls] rc
  obtain cfg where c: "calls = [Compile ''x'' cfg]"
    and u: "\<forall>n opts. PresetWithOptions n opts \<in> set (cfg_presets cfg) \<longrightarrow>
                   useBuiltIns opts = builtIns example_evaluating"
    and e: "isEnvPresetEnabled (envConfig example_evaluating)
            \<and> isLoaded (envPresetState example_evaluating) \<longrightarrow>
                   (\<exists>opts. PresetWithOptions ''env'' opts \<in> set (cfg_presets cfg))"
    by blast
  have "isEnvPresetEnabled (envConfig example_evaluating)
            \<and> isLoaded (envPresetState example_evaluating)"
    by (simp add: example_evaluating_def example_State_def example_plugin_def)
  with e obtain opts where o: "PresetWithOptions ''env'' opts \<in> set (cfg_presets cfg)" by blast
  with u have "useBuiltIns opts = builtIns example_evaluating" by blast
  then have ub: "useBuiltIns opts" by (simp add: example_evaluating_def example_State_def)
  have en: "isEnabled (runtimePolyfillState example_evaluating)"
    by (simp add: example_evaluating_def example_State_def example_plugin_def)
  from Repl_compile_Inr [OF rc] c have "cfg_evaluate cfg
             = (isEnabled (runtimePolyfillState example_evaluating)
                \<and> isLoaded (runtimePolyfillState example_evaluating))"
    by auto
  then have ev: "cfg_evaluate cfg"
    by (simp add: example_evaluating_def example_State_def example_plugin_def)
  from rc c en ev o ub show ?thesis by blast
qed

subsection \<open>Persisting the state\<close>

text \<open>
  Claim C4. \<open>_persistState\<close> builds one object and hands that object both to
  \<open>StorageService.set\<close>, under the key \<open>replState\<close>, and to \<open>UriUtils.updateQuery\<close>.
  It runs at the end of the function that the debounce wraps, after the compilation, and
  at the end of \<open>_onIsSidebarExpandedChange\<close>. A change of a plugin, a preset or a
  setting (\<open>_onSettingChange\<close>, \<open>_onEnvPresetSettingChange\<close>) ends with the call of
  the debounced function for what the state holds as its code, so it is persisted by the
  compilation that follows.
\<close>

theorem persistState_writes_one_object:
  "(persistState X this = Inr calls \<longrightarrow>
      (\<exists>st. calls = [StorageSet ''replState'' st, UpdateQuery st]))
   \<and> (compileToState X c this = Inr (this1, calls1) \<longrightarrow>
        (\<exists>cfg st. calls1 = [Compile c cfg, StorageSet ''replState'' st, UpdateQuery st]
                \<and> persistState X this1 = Inr [StorageSet ''replState'' st, UpdateQuery st]))
   \<and> (onIsSidebarExpandedChange X isExpanded this = Inr (this2, calls2) \<longrightarrow>
        isSidebarExpanded (state this2) = isExpanded
      \<and> persistState X this2 = Inr calls2)
   \<and> (onSettingChange name b this' = Inr (this3, calls3) \<longrightarrow>
        (\<exists>loads. calls3 = loads @ [case code_value (stateObject this3) of
                                      Inl v \<Rightarrow> CompileToState_Boolean v
                                    | Inr s \<Rightarrow> OfType (CompileToState s)]))
   \<and> (onEnvPresetSettingChange name v this' = (this4, calls4) \<longrightarrow>
        (\<exists>loads. calls4 = loads @ [case code_value (stateObject this4) of
                                      Inl v \<Rightarrow> CompileToState_Boolean v
                                    | Inr s \<Rightarrow> OfType (CompileToState s)]))"
proof -
  have 1: "\<exists>st. calls = [StorageSet ''replState'' st, UpdateQuery st]"
    if "persistState X this = Inr calls"
    using persistState_Inr [OF that] by blast
  have 2: "\<exists>cfg st. calls1 = [Compile c cfg, StorageSet ''replState'' st, UpdateQuery st]
                \<and> persistState X this1 = Inr [StorageSet ''replState'' st, UpdateQuery st]"
    if "compileToState X c this = Inr (this1, calls1)"
  proof -
    from compileToState_Inr [OF that] obtain cfg calls' where
      p: "persistState X this1 = Inr calls'" and c: "calls1 = Compile c cfg # calls'"
      by blast
    from persistState_Inr [OF p] obtain st where
      "calls' = [StorageSet ''replState'' st, UpdateQuery st]" by blast
    with p c show ?thesis by blast
  qed
  have 3: "isSidebarExpanded (state this2) = isExpanded \<and> persistState X this2 = Inr calls2"
    if h: "onIsSidebarExpandedChange X isExpanded this = Inr (this2, calls2)"
  proof (cases "persistState X (this\<lparr>state := (state this)\<lparr>isSidebarExpanded := isExpanded\<rparr>\<rparr>)")
    case (Inl e)
    with h show ?thesis by (simp add: onIsSidebarExpandedChange_def Let_def)
  next
    case (Inr calls')
    with h have "this2 = this\<lparr>state := (state this)\<lparr>isSidebarExpanded := isExpanded\<rparr>\<rparr>"
      and "calls2 = calls'"
      by (simp_all add: onIsSidebarExpandedChange_def Let_def)
    with Inr show ?thesis by simp
  qed
  have cb: "\<exists>loads. cs = loads @ [case code_value (stateObject t') of
                                     Inl v \<Rightarrow> CompileToState_Boolean v
                                   | Inr s \<Rightarrow> OfType (CompileToState s)]"
    if c: "presetsUpdatedSetStateCallback t = (t', cs)" for t t' cs
  proof -
    from c have "t' = fst (presetsUpdatedSetStateCallback t)"
      and "cs = snd (presetsUpdatedSetStateCallback t)" by simp_all
    with presetsUpdatedSetStateCallback_stateObject [of t]
      presetsUpdatedSetStateCallback_calls [of t]
    show ?thesis by simp
  qed
  have 4: "\<exists>loads. calls3 = loads @ [case code_value (stateObject this3) of
                                       Inl v \<Rightarrow> CompileToState_Boolean v
                                     | Inr s \<Rightarrow> OfType (CompileToState s)]"
    if h: "onSettingChange name b this' = Inr (this3, calls3)"
  proof -
    from h obtain t where "presetsUpdatedSetStateCallback t = (this3, calls3)"
      by (auto simp: onSettingChange_def split: sum.splits option.splits)
    then show ?thesis by (rule cb)
  qed
  have 5: "\<exists>loads. calls4 = loads @ [case code_value (stateObject this4) of
                                       Inl v \<Rightarrow> CompileToState_Boolean v
                                     | Inr s \<Rightarrow> OfType (CompileToState s)]"
    if h: "onEnvPresetSettingChange name v this' = (this4, calls4)"
    using h unfolding onEnvPresetSettingChange_def by (rule cb)
  from 1 2 3 4 5 show ?thesis by blast
qed

theorem persistState_writes_one_object_witness:
  "persistState example_Imports example_Repl
     = Inr [StorageSet ''replState'' example_persisted, UpdateQuery example_persisted]
   \<and> (\<exists>this1 cfg st.
         compileToState example_Imports ''x'' example_Repl
           = Inr (this1, [Compile ''x'' cfg, StorageSet ''replState'' st, UpdateQuery st]))
   \<and> (\<exists>this2 calls2.
         onIsSidebarExpandedChange example_Imports False example_Repl = Inr (this2, calls2)
       \<and> \<not> isSidebarExpanded (state this2)
       \<and> persistState example_Imports this2 = Inr calls2)
   \<and> (\<exists>this3 loads.
         onSettingChange ''prettier'' True example_ReplObject
           = Inr (this3, loads @ [OfType (CompileToState ''x'')]))
   \<and> (\<exists>this3 loads.
         onSettingChange ''code'' True example_ReplObject
           = Inr (this3, loads @ [CompileToState_Boolean True]))
   \<and> (\<exists>this4 loads.
         onEnvPresetSettingChange ''isEnvPresetEnabled'' (JsBoolean False) example_ReplObject
           = (this4, loads @ [OfType (CompileToState ''x'')])
       \<and> \<not> isEnvPresetEnabled (envConfig (declared (stateObject this4))))"
proof -
  have b: "map_of (plugins (state example_Repl)) ''babili-standalone''
             = Some (example_plugin ''babili'' True False False)"
    and p: "map_of (plugins (state example_Repl)) ''prettier''
             = Some (example_plugin ''prettier'' False False False)"
    by (simp_all add: example_Repl_def example_State_def)
  from compileToState_total [OF b p, of example_Imports "''x''"]
  obtain this1 calls1 where
    e1: "compileToState example_Imports ''x'' example_Repl = Inr (this1, calls1)" by blast
  define t2 where "t2 = example_Repl\<lparr>state := (state example_Repl)\<lparr>isSidebarExpanded := False\<rparr>\<rparr>"
  have "map_of (plugins (state t2)) ''babili-standalone''
             = Some (example_plugin ''babili'' True False False)"
    and "map_of (plugins (state t2)) ''prettier''
             = Some (example_plugin ''prettier'' False False False)"
    by (simp_all add: t2_def example_Repl_def example_State_def)
  from persistState_total [OF this, of example_Imports]
  obtain calls2 where "persistState example_Imports t2 = Inr calls2" by blast
  then have e2: "onIsSidebarExpandedChange example_Imports False example_Repl = Inr (t2, calls2)"
    by (simp add: onIsSidebarExpandedChange_def Let_def t2_def)
  from persistState_writes_one_object [THEN conjunct2, THEN conjunct1, rule_format, OF e1]
  obtain cfg st where
    c1: "calls1 = [Compile ''x'' cfg, StorageSet ''replState'' st, UpdateQuery st]" by blast
  from e1 c1 have 1: "\<exists>this1 cfg st.
         compileToState example_Imports ''x'' example_Repl
           = Inr (this1, [Compile ''x'' cfg, StorageSet ''replState'' st, UpdateQuery st])"
    by blast
  from persistState_writes_one_object
         [THEN conjunct2, THEN conjunct2, THEN conjunct1, rule_format, OF e2]
  have c2: "isSidebarExpanded (state t2) = False"
    "persistState example_Imports t2 = Inr calls2" by blast+
  from e2 c2 have 2: "\<exists>this2 calls2.
         onIsSidebarExpandedChange example_Imports False example_Repl = Inr (this2, calls2)
       \<and> \<not> isSidebarExpanded (state this2)
       \<and> persistState example_Imports this2 = Inr calls2" by auto
  have so: "stateObject example_ReplObject = example_StateObject"
    by (simp add: example_ReplObject_def)
  have 3: "\<exists>this3 loads.
         onSettingChange ''prettier'' True example_ReplObject
           = Inr (this3, loads @ [OfType (CompileToState ''x'')])"
  proof -
    define m where "m = assign_isEnabled (plugins (declared example_StateObject)) ''prettier'' True"
    define X where "X = example_StateObject\<lparr>declared := (declared example_StateObject)\<lparr>plugins := m\<rparr>\<rparr>"
    have u: "onSettingChange_updater ''prettier'' True (stateObject example_ReplObject)
               = Inr (Some (Partial_plugins m))"
      by (simp add: so m_def onSettingChange_updater_def hasOwnProperty_state_def
                    hasOwnProperty_plugins_def stored_boolean_def State_keys_def
                    example_StateObject_def object_of_def spread_of_def example_State_def)
    have s: "setState_PartialState (stateObject example_ReplObject) (Partial_plugins m) = X"
      by (simp add: so X_def setState_PartialState_def example_StateObject_def object_of_def)
    from onSettingChange_Some [OF u s] obtain this3 calls3 where
      e: "onSettingChange ''prettier'' True example_ReplObject = Inr (this3, calls3)"
      and x: "stateObject this3 = X" by blast
    from persistState_writes_one_object
           [THEN conjunct2, THEN conjunct2, THEN conjunct2, THEN conjunct1, rule_format, OF e]
    obtain loads where
      c: "calls3 = loads @ [case code_value (stateObject this3) of
                              Inl v \<Rightarrow> CompileToState_Boolean v
                            | Inr s \<Rightarrow> OfType (CompileToState s)]" by blast
    have "code_value X = Inr ''x''"
      by (simp add: X_def code_value_def stored_boolean_def example_StateObject_def
                    object_of_def example_State_def)
    with c x have "calls3 = loads @ [OfType (CompileToState ''x'')]" by simp
    with e show ?thesis by blast
  qed
  have 4: "\<exists>this3 loads.
         onSettingChange ''code'' True example_ReplObject
           = Inr (this3, loads @ [CompileToState_Boolean True])"
  proof -
    define X where "X = example_StateObject\<lparr>overwritten := [(''code'', True)]\<rparr>"
    have u: "onSettingChange_updater ''code'' True (stateObject example_ReplObject)
               = Inr (Some (Partial_computed ''code'' True))"
      by (simp add: so onSettingChange_updater_def hasOwnProperty_state_def State_keys_def)
    have s: "setState_PartialState (stateObject example_ReplObject)
               (Partial_computed ''code'' True) = X"
      by (simp add: so X_def setState_PartialState_def overwritable_keys_def
                    example_StateObject_def object_of_def)
    from onSettingChange_Some [OF u s] obtain this3 calls3 where
      e: "onSettingChange ''code'' True example_ReplObject = Inr (this3, calls3)"
      and x: "stateObject this3 = X" by blast
    from persistState_writes_one_object
           [THEN conjunct2, THEN conjunct2, THEN conjunct2, THEN conjunct1, rule_format, OF e]
    obtain loads where
      c: "calls3 = loads @ [case code_value (stateObject this3) of
                              Inl v \<Rightarrow> CompileToState_Boolean v
                            | Inr s \<Rightarrow> OfType (CompileToState s)]" by blast
    have "code_value X = Inl True"
      by (simp add: X_def code_value_def stored_boolean_def overwritable_keys_def)
    with c x have "calls3 = loads @ [CompileToState_Boolean True]" by simp
    with e show ?thesis by blast
  qed
  have 5: "\<exists>this4 loads.
         onEnvPresetSettingChange ''isEnvPresetEnabled'' (JsBoolean False) example_ReplObject
           = (this4, loads @ [OfType (CompileToState ''x'')])
       \<and> \<not> isEnvPresetEnabled (envConfig (declared (stateObject this4)))"
  proof -
    define X where
      "X = onEnvPresetSettingChange_updater ''isEnvPresetEnabled'' (JsBoolean False)
             example_StateObject"
    obtain this4 calls4 where
      e: "onEnvPresetSettingChange ''isEnvPresetEnabled'' (JsBoolean False) example_ReplObject
            = (this4, calls4)"
      by (cases "onEnvPresetSettingChange ''isEnvPresetEnabled'' (JsBoolean False)
                   example_ReplObject")
    then have "this4 = fst (presetsUpdatedSetStateCallback (example_ReplObject\<lparr>stateObject := X\<rparr>))"
      by (simp add: onEnvPresetSettingChange_def X_def so)
    with presetsUpdatedSetStateCallback_stateObject [of "example_ReplObject\<lparr>stateObject := X\<rparr>"]
    have x: "stateObject this4 = X" by simp
    have d: "declared X
               = example_State\<lparr>envConfig := (envConfig example_State)\<lparr>isEnvPresetEnabled := False\<rparr>\<rparr>"
      and o: "overwritten X = []"
      by (simp_all add: X_def onEnvPresetSettingChange_updater_def stored_boolean_def
                        EnvConfig_with_def example_StateObject_def object_of_def Let_def)
    from persistState_writes_one_object
           [THEN conjunct2, THEN conjunct2, THEN conjunct2, THEN conjunct2, rule_format, OF e]
    obtain loads where
      c: "calls4 = loads @ [case code_value (stateObject this4) of
                              Inl v \<Rightarrow> CompileToState_Boolean v
                            | Inr s \<Rightarrow> OfType (CompileToState s)]" by blast
    have "code_value X = Inr ''x''"
      by (simp add: code_value_def stored_boolean_def d o example_State_def)
    with c x have "calls4 = loads @ [OfType (CompileToState ''x'')]" by simp
    moreover from x d have "\<not> isEnvPresetEnabled (envConfig (declared (stateObject this4)))"
      by simp
    ultimately show ?thesis using e by blast
  qed
  from example_persistState 1 2 3 4 5 show ?thesis by blast
qed

subsection \<open>Changing a setting\<close>



subsection \<open>Counting the plugin loads\<close>

text \<open>
  Claim C8. \<open>_checkForUnloadedPlugins\<close> adds to \<open>_numLoadingPlugins\<close> one for each
  plugin load it starts, and the callback of a plugin load takes one away, whether the
  load succeeded or not. The callback calls \<open>_updateCode\<close> with the code of the state
  exactly when the counter is then 0. From the constructor on, the counter is the number
  of plugin loads in flight, so that call is made by the callback of the last load in
  flight and by no other. After a failed load the \<open>plugins\<close> of the state is the map the
  closure holds, as it is; the callback sets no flag in it. After a successful load the
  state is as before.
\<close>

theorem plugin_loads_counted:
  "numLoadingPlugins (fst (checkForUnloadedPlugins this))
     = numLoadingPlugins this
       + int (length (filter isPluginLoad (snd (checkForUnloadedPlugins this))))
   \<and> numLoadingPlugins (fst (pluginLoadCallback plugins' success this))
       = numLoadingPlugins this - 1
   \<and> snd (pluginLoadCallback plugins' success this)
       = (if numLoadingPlugins (fst (pluginLoadCallback plugins' success this)) = 0
          then [CompileToState (code (state this))] else [])
   \<and> state (fst (pluginLoadCallback plugins' False this)) = (state this)\<lparr>plugins := plugins'\<rparr>
   \<and> state (fst (pluginLoadCallback plugins' True this)) = state this
   \<and> (steps es (constructed st) = Some l \<longrightarrow>
        numLoadingPlugins (repl l) = int (inFlight l)
      \<and> (\<forall>l' calls. step (PluginLoadDone plugins' success) l = Some (l', calls) \<longrightarrow>
            calls = (if inFlight l' = 0 then [CompileToState (code (state (repl l)))] else [])))"
proof -
  have inv: "numLoadingPlugins (repl l) = int (inFlight l)"
    if "steps es (constructed st) = Some l"
    by (rule steps_keep_count [OF _ that]) (simp add: constructed_def)
  have last: "calls = (if inFlight l' = 0 then [CompileToState (code (state (repl l)))] else [])"
    if s: "steps es (constructed st) = Some l"
      and d: "step (PluginLoadDone plugins' success) l = Some (l', calls)"
    for l' calls
  proof -
    from d have pos: "inFlight l \<noteq> 0" by (auto split: if_splits)
    obtain this' cs where c: "pluginLoadCallback plugins' success (repl l) = (this', cs)"
      by (cases "pluginLoadCallback plugins' success (repl l)")
    from d pos c have l': "inFlight l' = inFlight l - 1" and cs: "calls = cs" by auto
    from pluginLoadCallback_calls [of plugins' success "repl l"] c
    have "cs = (if numLoadingPlugins (repl l) - 1 = 0
                then [CompileToState (code (state (repl l)))] else [])" by simp
    moreover from inv [OF s] pos l'
    have "(numLoadingPlugins (repl l) - 1 = 0) = (inFlight l' = 0)" by auto
    ultimately show ?thesis using cs by simp
  qed
  show ?thesis
    using checkForUnloadedPlugins_counter [of this]
      pluginLoadCallback_counter [of plugins' success this]
      pluginLoadCallback_calls [of plugins' success this]
      pluginLoadCallback_state [of plugins' False this]
      pluginLoadCallback_state [of plugins' True this]
      inv last
    by simp
qed

theorem plugin_loads_counted_witness:
  "numLoadingPlugins
     (fst (checkForUnloadedPlugins \<lparr> state = example_two_loads, numLoadingPlugins = 0 \<rparr>)) = 2
   \<and> (\<exists>l l'.
         steps [CheckForUnloadedPlugins, PluginLoadDone (plugins example_two_loads) False]
           (constructed example_two_loads) = Some l
       \<and> numLoadingPlugins (repl l) = 1
       \<and> inFlight l = 1
       \<and> step (PluginLoadDone (plugins example_two_loads) True) l
           = Some (l', [CompileToState ''x''])
       \<and> inFlight l' = 0)"
proof -
  define this0 where "this0 = \<lparr> state = example_two_loads, numLoadingPlugins = 0 \<rparr>"
  define P where "P = plugins example_two_loads"
  have f: "filter isPluginLoad (snd (checkForUnloadedPlugins this0))
             = [LoadPlugin (example_plugin ''babili'' True False False) PluginLoadCallback,
                LoadPlugin (example_plugin ''prettier'' True False False) PluginLoadCallback]"
    by (simp add: filter_isPluginLoad_calls this0_def example_two_loads_def example_plugin_def)
  note inst = plugin_loads_counted [of this0 P False]
  from inst f have 1: "numLoadingPlugins (fst (checkForUnloadedPlugins this0)) = 2"
    by (simp add: this0_def)
  obtain this1 cs1 where c1: "checkForUnloadedPlugins this0 = (this1, cs1)"
    by (cases "checkForUnloadedPlugins this0")
  from 1 c1 have n1: "numLoadingPlugins this1 = 2" by simp
  from f c1 have len1: "length (filter isPluginLoad cs1) = 2" by simp
  define l1 where "l1 = \<lparr> repl = this1, inFlight = 2 \<rparr>"
  have s1: "step CheckForUnloadedPlugins (constructed example_two_loads) = Some (l1, cs1)"
    using c1 len1 by (simp add: constructed_def l1_def this0_def)
  obtain this2 cs2 where c2: "pluginLoadCallback P False this1 = (this2, cs2)"
    by (cases "pluginLoadCallback P False this1")
  define l2 where "l2 = \<lparr> repl = this2, inFlight = 1 \<rparr>"
  have s2: "step (PluginLoadDone P False) l1 = Some (l2, cs2)"
    using c2 by (simp add: l1_def l2_def)
  from s1 s2 have run: "steps [CheckForUnloadedPlugins, PluginLoadDone P False]
                          (constructed example_two_loads) = Some l2" by simp
  note inst2 = plugin_loads_counted
    [of this0 P True "[CheckForUnloadedPlugins, PluginLoadDone P False]"
        example_two_loads l2]
  from inst2 run have n2: "numLoadingPlugins (repl l2) = int (inFlight l2)"
    and fin: "\<forall>l' calls. step (PluginLoadDone P True) l2 = Some (l', calls) \<longrightarrow>
            calls = (if inFlight l' = 0 then [CompileToState (code (state (repl l2)))] else [])"
    by blast+
  from n2 have n2': "numLoadingPlugins (repl l2) = 1" by (simp add: l2_def)
  obtain this3 cs3 where c3: "pluginLoadCallback P True this2 = (this3, cs3)"
    by (cases "pluginLoadCallback P True this2")
  define l3 where "l3 = \<lparr> repl = this3, inFlight = 0 \<rparr>"
  have s3: "step (PluginLoadDone P True) l2 = Some (l3, cs3)"
    using c3 by (simp add: l2_def l3_def)
  with fin have "cs3 = (if inFlight l3 = 0 then [CompileToState (code (state (repl l2)))] else [])"
    by blast
  then have cs3: "cs3 = [CompileToState (code (state this2))]" by (simp add: l3_def l2_def)
  from pluginLoadCallback_state [of P False this1] c2
  have "state this2 = (state this1)\<lparr>plugins := P\<rparr>" by simp
  moreover have "state this1 = example_two_loads"
  proof -
    from state_checkForUnloadedPlugins [of this0] have "state (fst (this1, cs1)) = state this0"
      unfolding c1 .
    then show ?thesis by (simp add: this0_def)
  qed
  ultimately have "code (state this2) = ''x''"
    by (simp add: example_two_loads_def example_State_def)
  with cs3 s3 have s3': "step (PluginLoadDone P True) l2 = Some (l3, [CompileToState ''x''])"
    by simp
  have "inFlight l2 = 1" "inFlight l3 = 0" by (simp_all add: l2_def l3_def)
  with run n2' s3' have "\<exists>l l'.
         steps [CheckForUnloadedPlugins, PluginLoadDone P False]
           (constructed example_two_loads) = Some l
       \<and> numLoadingPlugins (repl l) = 1
       \<and> inFlight l = 1
       \<and> step (PluginLoadDone P True) l = Some (l', [CompileToState ''x''])
       \<and> inFlight l' = 0" by blast
  with 1 show ?thesis unfolding this0_def P_def by blast
qed

subsection \<open>Debounced recompilation\<close>

text \<open>
  Claim C2. \<open>_updateCode(code)\<close> stores the code in the state at once and calls the
  debounced \<open>_compileToState\<close>. When calls of \<open>_updateCode\<close> arrive in a burst, each
  less than \<open>DEBOUNCE_DELAY\<close> = 500 ms after the one before (and after the call that
  is pending from before, if one is), nothing is compiled during the burst; once the delay
  has passed
  after the last call, there is one call of \<open>compile\<close>, on the code of the last call;
  what \<open>_compile\<close> returns for it (compiled output, compile error, evaluation error,
  source map, env preset debug info) is merged into the state, the state is persisted, and
  nothing is left pending.
\<close>

theorem burst_compiles_once:
  assumes "map_of (plugins (state (component s))) ''babili-standalone'' = Some babili"
    and "map_of (plugins (state (component s))) ''prettier'' = Some prettier"
    and "lastArgs (debounced s) = None
         \<or> fst (hd calls) < lastCallTime (debounced s) + DEBOUNCE_DELAY"
    and "calls \<noteq> []"
    and "burst calls"
    and "fst (last calls) + DEBOUNCE_DELAY \<le> later"
  shows "DEBOUNCE_DELAY = 500
       \<and> updateCode c this = (this\<lparr>state := (state this)\<lparr>code := c\<rparr>\<rparr>, [CompileToState c])
       \<and> (\<exists>s1 s2 r cfg st.
             updateCode_calls X calls s
               = Inr (s1, map (\<lambda>call. CompileToState (snd call)) calls)
           \<and> code (state (component s1)) = snd (last calls)
           \<and> elapse X later s1
               = Inr (s2, [Compile (snd (last calls)) cfg,
                           StorageSet ''replState'' st, UpdateQuery st])
           \<and> filter isCompile
                (map (\<lambda>call. CompileToState (snd call)) calls
                 @ [Compile (snd (last calls)) cfg, StorageSet ''replState'' st, UpdateQuery st])
               = [Compile (snd (last calls)) cfg]
           \<and> Repl_compile X (snd (last calls)) (state (component s1))
               = Inr (r, [Compile (snd (last calls)) cfg])
           \<and> component s2
               = (component s1)\<lparr>state := setState_CompileState (state (component s1)) r\<rparr>
           \<and> lastArgs (debounced s2) = None)"
proof -
  from assms(4) obtain t0 c0 rest where calls: "calls = (t0, c0) # rest"
    by (cases calls) auto
  define s1 where
    "s1 = \<lparr> component = (component s)
                       \<lparr>state := (state (component s))\<lparr>code := snd (last calls)\<rparr>\<rparr>,
            debounced = \<lparr> lastArgs = Some (snd (last calls)),
                          lastCallTime = fst (last calls) \<rparr> \<rparr>"
  from assms(3) have "lastArgs (debounced s) = None
                      \<or> t0 < lastCallTime (debounced s) + DEBOUNCE_DELAY"
    by (simp add: calls)
  from updateCode_calls_burst [OF assms(5) [unfolded calls] this, of X]
  have run: "updateCode_calls X calls s
               = Inr (s1, map (\<lambda>call. CompileToState (snd call)) calls)"
    by (simp add: calls s1_def)
  have "lastArgs (debounced s1) = Some (snd (last calls))"
    and "lastCallTime (debounced s1) + DEBOUNCE_DELAY \<le> later"
    and "map_of (plugins (state (component s1))) ''babili-standalone'' = Some babili"
    and "map_of (plugins (state (component s1))) ''prettier'' = Some prettier"
    using assms(1,2,6) by (simp_all add: s1_def)
  from elapse_due [OF this, of X] obtain s2 r cfg st where
    fire: "elapse X later s1
             = Inr (s2, [Compile (snd (last calls)) cfg,
                         StorageSet ''replState'' st, UpdateQuery st])"
    and rc: "Repl_compile X (snd (last calls)) (state (component s1))
               = Inr (r, [Compile (snd (last calls)) cfg])"
    and merged: "component s2
               = (component s1)\<lparr>state := setState_CompileState (state (component s1)) r\<rparr>"
    and idle: "lastArgs (debounced s2) = None" by blast
  have cd: "code (state (component s1)) = snd (last calls)" by (simp add: s1_def)
  have one: "filter isCompile
                (map (\<lambda>call. CompileToState (snd call)) calls
                 @ [Compile (snd (last calls)) cfg, StorageSet ''replState'' st, UpdateQuery st])
               = [Compile (snd (last calls)) cfg]"
    by (simp add: filter_map comp_def)
  have u: "updateCode c this = (this\<lparr>state := (state this)\<lparr>code := c\<rparr>\<rparr>, [CompileToState c])"
    by (simp add: updateCode_def)
  have d: "DEBOUNCE_DELAY = 500" by (simp add: DEBOUNCE_DELAY_def)
  from d u run cd fire one rc merged idle show ?thesis by blast
qed

theorem burst_compiles_once_witness:
  "burst [(0, ''a''), (300, ''ab''), (700, ''abc'')]
   \<and> (\<exists>s1 s2 cfg st.
         updateCode_calls example_Imports [(0, ''a''), (300, ''ab''), (700, ''abc'')]
           example_Scheduled
           = Inr (s1, [CompileToState ''a'', CompileToState ''ab'', CompileToState ''abc''])
       \<and> code (state (component s1)) = ''abc''
       \<and> elapse example_Imports 1200 s1
           = Inr (s2, [Compile ''abc'' cfg, StorageSet ''replState'' st, UpdateQuery st])
       \<and> lastArgs (debounced s2) = None)"
proof -
  have b: "map_of (plugins (state (component example_Scheduled))) ''babili-standalone''
             = Some (example_plugin ''babili'' True False False)"
    and p: "map_of (plugins (state (component example_Scheduled))) ''prettier''
             = Some (example_plugin ''prettier'' False False False)"
    and i: "lastArgs (debounced example_Scheduled) = None
            \<or> fst (hd [(0, ''a''), (300, ''ab''), (700::nat, ''abc'')])
                < lastCallTime (debounced example_Scheduled) + DEBOUNCE_DELAY"
    by (simp_all add: example_Scheduled_def example_Repl_def example_State_def)
  have n: "[(0, ''a''), (300, ''ab''), (700::nat, ''abc'')] \<noteq> []" by simp
  have u: "burst [(0, ''a''), (300, ''ab''), (700, ''abc'')]"
    by (simp add: DEBOUNCE_DELAY_def)
  have l: "fst (last [(0, ''a''), (300, ''ab''), (700::nat, ''abc'')]) + DEBOUNCE_DELAY \<le> 1200"
    by (simp add: DEBOUNCE_DELAY_def)
  from burst_compiles_once [OF b p i n u l, of "''x''" example_Repl example_Imports]
  obtain s1 s2 cfg st where
    "updateCode_calls example_Imports [(0, ''a''), (300, ''ab''), (700, ''abc'')]
           example_Scheduled
           = Inr (s1, map (\<lambda>call. CompileToState (snd call))
                        [(0, ''a''), (300, ''ab''), (700::nat, ''abc'')])"
    "code (state (component s1)) = snd (last [(0, ''a''), (300, ''ab''), (700::nat, ''abc'')])"
    "elapse example_Imports 1200 s1
           = Inr (s2, [Compile (snd (last [(0, ''a''), (300, ''ab''), (700::nat, ''abc'')])) cfg,
                       StorageSet ''replState'' st, UpdateQuery st])"
    "lastArgs (debounced s2) = None"
    by blast
  then have "\<exists>s1 s2 cfg st.
         updateCode_calls example_Imports [(0, ''a''), (300, ''ab''), (700, ''abc'')]
           example_Scheduled
           = Inr (s1, [CompileToState ''a'', CompileToState ''ab'', CompileToState ''abc''])
       \<and> code (state (component s1)) = ''abc''
       \<and> elapse example_Imports 1200 s1
           = Inr (s2, [Compile ''abc'' cfg, StorageSet ''replState'' st, UpdateQuery st])
       \<and> lastArgs (debounced s2) = None"
    by auto
  with u show ?thesis by blast
qed

end
